theory Spec2Isabelle
  imports Complex_Main "HOL-Library.Word"
begin

unbundle bit_operations_syntax

section \<open>Data model\<close>

text \<open>
  The sources hold three revisions of \<^verbatim>\<open>textcurve.go\<close>. The development embeds
  the latest one: the revision with \<^verbatim>\<open>Options.Spacing\<close>, \<^verbatim>\<open>ParsedFont\<close>, the
  shaping path and the \<^verbatim>\<open>advanceWidth\<close> argument of \<^verbatim>\<open>computeAlign\<close>. (The two
  earlier revisions align left and right on the ink bounds, and the earliest decodes a
  contour by another algorithm.)

  Conventions of the embedding:
  \<^item> \<^verbatim>\<open>float64\<close> is idealised as \<^typ>\<open>real\<close>: every value is finite and
    arithmetic is exact. The two infinities that initialise the bounding box are
    modelled by \<open>None\<close> in a \<^typ>\<open>real option\<close>.
  \<^item> Go's \<^verbatim>\<open>int\<close> is \<^typ>\<open>int\<close>; where its width matters
    (\<^verbatim>\<open>parseOS2TypoAscender\<close>) the width is a parameter and the wrap-around is
    written out.
  \<^item> A returned \<^verbatim>\<open>error\<close> is \<open>Inl (Error msg)\<close>, a run-time panic is
    \<open>Inl (Panic msg)\<close>.
  \<^item> The text \<^verbatim>\<open>s\<close> is given as the list of runes that \<^verbatim>\<open>range s\<close> yields.
\<close>

datatype error = Error string | Panic string

text \<open>\<^verbatim>\<open>model2d.Coord\<close> and the three methods the program calls on it.\<close>

record Coord =
  X :: real
  Y :: real

definition Add :: "Coord \<Rightarrow> Coord \<Rightarrow> Coord" where
  "Add c c1 = \<lparr>X = X c + X c1, Y = Y c + Y c1\<rparr>"

definition Scale :: "Coord \<Rightarrow> real \<Rightarrow> Coord" where
  "Scale c s = \<lparr>X = X c * s, Y = Y c * s\<rparr>"

definition Mid :: "Coord \<Rightarrow> Coord \<Rightarrow> Coord" where
  "Mid c c1 = Scale (Add c c1) 0.5"

type_synonym Contour = "Coord list"
type_synonym Outlines = "Contour list"

section \<open>Curve flattener\<close>

text \<open>
  \<^verbatim>\<open>for i := 1; i <= segs; i++ { t := float64(i)/float64(segs); u := 1 - t;
    p := p0.Scale(u*u).Add(p1.Scale(2*u*t)).Add(p2.Scale(t*t)); out = append(out, p) }\<close>
\<close>

function flattenQuad_loop ::
  "Coord \<Rightarrow> Coord \<Rightarrow> Coord \<Rightarrow> int \<Rightarrow> int \<Rightarrow> Coord list \<Rightarrow> Coord list" where
  "flattenQuad_loop p0 p1 p2 segs i out =
     (if i \<le> segs then
        (let t = real_of_int i / real_of_int segs;
             u = 1 - t;
             p = Add (Add (Scale p0 (u * u)) (Scale p1 (2 * u * t))) (Scale p2 (t * t))
         in flattenQuad_loop p0 p1 p2 segs (i + 1) (out @ [p]))
      else out)"
  by pat_completeness auto
termination
  by (relation "measure (\<lambda>(p0, p1, p2, segs, i, out). nat (segs + 1 - i))") auto

declare flattenQuad_loop.simps [simp del]

text \<open>
  \<^verbatim>\<open>make([]model2d.Coord, 0, segs)\<close> panics when \<^verbatim>\<open>segs\<close> is negative.
\<close>

definition flattenQuad :: "Coord \<Rightarrow> Coord \<Rightarrow> Coord \<Rightarrow> int \<Rightarrow> error + Coord list" where
  "flattenQuad p0 p1 p2 segs =
     (if segs < 0 then Inl (Panic ''makeslice: cap out of range'')
      else Inr (flattenQuad_loop p0 p1 p2 segs 1 []))"

text \<open>
  The quadratic Bezier curve as the specification writes it:
  \<open>(1 - t)\<^sup>2 \<cdot> p0 + 2 (1 - t) t \<cdot> ctrl + t\<^sup>2 \<cdot> p2\<close>, coordinate by coordinate.
\<close>

definition bezier_spec :: "Coord \<Rightarrow> Coord \<Rightarrow> Coord \<Rightarrow> real \<Rightarrow> Coord" where
  "bezier_spec p0 c p2 t =
     \<lparr>X = (1 - t)\<^sup>2 * X p0 + 2 * (1 - t) * t * X c + t\<^sup>2 * X p2,
      Y = (1 - t)\<^sup>2 * Y p0 + 2 * (1 - t) * t * Y c + t\<^sup>2 * Y p2\<rparr>"

section \<open>Glyph outline decoder\<close>

text \<open>
  \<^verbatim>\<open>truetype.Point\<close>: coordinates in 26.6 fixed point and the flag word whose lowest bit
  marks an on-curve point. The fields \<^verbatim>\<open>X\<close> and \<^verbatim>\<open>Y\<close> are called \<open>PX\<close> and \<open>PY\<close>
  here, since \<open>X\<close> and \<open>Y\<close> are the fields of \<^typ>\<open>Coord\<close>.
\<close>

record Point =
  PX :: int
  PY :: int
  Flags :: "32 word"

text \<open>The two closures of \<^verbatim>\<open>flattenTrueTypeContour\<close>; the captured variables are arguments.\<close>

definition toVec :: "real \<Rightarrow> real \<Rightarrow> Point \<Rightarrow> Coord" where
  "toVec penX scale p =
     \<lparr>X = (real_of_int (PX p) / 64 + penX) * scale, Y = (real_of_int (PY p) / 64) * scale\<rparr>"

definition onCurve :: "Point \<Rightarrow> bool" where
  "onCurve p \<longleftrightarrow> Flags p AND 1 \<noteq> 0"

text \<open>
  The choice of the start point: the pair \<^verbatim>\<open>(start, startIdx)\<close>. The list is not empty
  where this is called, so \<^verbatim>\<open>pts[0]\<close> and \<^verbatim>\<open>pts[n-1]\<close> are in range.
\<close>

definition chooseStart :: "Point list \<Rightarrow> real \<Rightarrow> real \<Rightarrow> Coord \<times> nat" where
  "chooseStart pts penX scale =
     (let n = length pts in
      if onCurve (pts ! 0) then (toVec penX scale (pts ! 0), 0)
      else if onCurve (pts ! (n - 1)) then (toVec penX scale (pts ! (n - 1)), n - 1)
      else (Mid (toVec penX scale (pts ! (n - 1))) (toVec penX scale (pts ! 0)), 0))"

text \<open>The variables the walk over the points updates.\<close>

record walk_state =
  w_poly :: Contour
  w_prevOn :: Coord
  w_haveCtrl :: bool
  w_ctrl :: Coord
  w_i :: nat

text \<open>
  One iteration of \<^verbatim>\<open>for steps := 0; steps < n; steps++\<close>. The index \<^verbatim>\<open>i\<close> is
  always reduced modulo \<^verbatim>\<open>n\<close>, so \<^verbatim>\<open>pts[i]\<close> is in range (lemma \<open>walk_index_in_range\<close>).
\<close>

definition walk_step ::
  "Point list \<Rightarrow> real \<Rightarrow> real \<Rightarrow> int \<Rightarrow> walk_state \<Rightarrow> error + walk_state" where
  "walk_step pts penX scale segs st =
     (let n = length pts; p = pts ! (w_i st) in
      if onCurve p then
        (let on = toVec penX scale p in
         if w_haveCtrl st then
           (case flattenQuad (w_prevOn st) (w_ctrl st) on segs of
              Inl e \<Rightarrow> Inl e
            | Inr q \<Rightarrow> Inr (st\<lparr>w_poly := w_poly st @ q, w_haveCtrl := False,
                              w_prevOn := on, w_i := (w_i st + 1) mod n\<rparr>))
         else Inr (st\<lparr>w_poly := w_poly st @ [on], w_prevOn := on, w_i := (w_i st + 1) mod n\<rparr>))
      else
        (let c = toVec penX scale p in
         if w_haveCtrl st then
           (let implied = Mid (w_ctrl st) c in
            case flattenQuad (w_prevOn st) (w_ctrl st) implied segs of
              Inl e \<Rightarrow> Inl e
            | Inr q \<Rightarrow> Inr (st\<lparr>w_poly := w_poly st @ q, w_prevOn := implied,
                              w_ctrl := c, w_haveCtrl := True, w_i := (w_i st + 1) mod n\<rparr>))
         else Inr (st\<lparr>w_ctrl := c, w_haveCtrl := True, w_i := (w_i st + 1) mod n\<rparr>)))"

text \<open>The loop, with the number of iterations left as its first argument.\<close>

primrec walk ::
  "nat \<Rightarrow> Point list \<Rightarrow> real \<Rightarrow> real \<Rightarrow> int \<Rightarrow> walk_state \<Rightarrow> error + walk_state" where
  "walk 0 pts penX scale segs st = Inr st"
| "walk (Suc k) pts penX scale segs st =
     (case walk_step pts penX scale segs st of
        Inl e \<Rightarrow> Inl e
      | Inr st' \<Rightarrow> walk k pts penX scale segs st')"

text \<open>
  The code after the loop: close the contour back to \<^verbatim>\<open>start\<close>, ensure explicit closure,
  and drop a polyline of fewer than four points (\<^verbatim>\<open>nil\<close> is the empty list).
\<close>

definition closeContour :: "walk_state \<Rightarrow> Coord \<Rightarrow> int \<Rightarrow> error + Contour" where
  "closeContour st start segs =
     (case (if w_haveCtrl st then
              (case flattenQuad (w_prevOn st) (w_ctrl st) start segs of
                 Inl e \<Rightarrow> Inl e
               | Inr q \<Rightarrow> Inr (w_poly st @ q))
            else if last (w_poly st) \<noteq> start then Inr (w_poly st @ [start])
            else Inr (w_poly st)) of
        Inl e \<Rightarrow> Inl e
      | Inr poly1 \<Rightarrow>
          (let poly2 = (if last poly1 \<noteq> hd poly1 then poly1 @ [hd poly1] else poly1) in
           if length poly2 < 4 then Inr [] else Inr poly2))"

text \<open>
  The variables as the loop finds them: \<^verbatim>\<open>poly\<close> holds \<^verbatim>\<open>start\<close>, the zero value of
  \<^verbatim>\<open>ctrl\<close> is the origin, and \<^verbatim>\<open>i := (startIdx + 1) % n\<close>.
\<close>

definition initWalk :: "Point list \<Rightarrow> real \<Rightarrow> real \<Rightarrow> walk_state" where
  "initWalk pts penX scale =
     (let (start, startIdx) = chooseStart pts penX scale in
      \<lparr>w_poly = [start], w_prevOn = start, w_haveCtrl = False,
       w_ctrl = \<lparr>X = 0, Y = 0\<rparr>, w_i = (startIdx + 1) mod length pts\<rparr>)"

text \<open>\<^verbatim>\<open>make(Contour, 0, n*segs+4)\<close> panics on a negative capacity.\<close>

definition flattenTrueTypeContour ::
  "Point list \<Rightarrow> real \<Rightarrow> real \<Rightarrow> int \<Rightarrow> error + Contour" where
  "flattenTrueTypeContour pts penX scale segs =
     (if length pts = 0 then Inr []
      else
        (let n = length pts;
             start = fst (chooseStart pts penX scale)
         in if int n * segs + 4 < 0 then Inl (Panic ''makeslice: cap out of range'')
            else
              (case walk n pts penX scale segs (initWalk pts penX scale) of
                 Inl e \<Rightarrow> Inl e
               | Inr st \<Rightarrow> closeContour st start segs)))"

text \<open>
  A slice expression \<^verbatim>\<open>xs[lo:hi]\<close>, which panics out of range. (The capacity of the
  slice is taken to be its length.)
\<close>

definition slice :: "'a list \<Rightarrow> int \<Rightarrow> int \<Rightarrow> error + 'a list" where
  "slice xs lo hi =
     (if 0 \<le> lo \<and> lo \<le> hi \<and> hi \<le> int (length xs)
      then Inr (take (nat (hi - lo)) (drop (nat lo) xs))
      else Inl (Panic ''slice bounds out of range''))"

text \<open>\<^verbatim>\<open>truetype.GlyphBuf\<close>: the points of a glyph and the end index of each contour.\<close>

record GlyphBuf =
  Points :: "Point list"
  Ends :: "int list"

text \<open>
  The loop \<^verbatim>\<open>for _, end := range ends\<close> of \<^verbatim>\<open>glyphContoursToPolylines\<close>, with the
  variables \<^verbatim>\<open>start\<close> and \<^verbatim>\<open>out\<close> as arguments.
\<close>

fun contours_loop ::
  "Point list \<Rightarrow> real \<Rightarrow> real \<Rightarrow> int \<Rightarrow> int list \<Rightarrow> int \<Rightarrow> Contour list
     \<Rightarrow> error + Contour list" where
  "contours_loop pts penX scale segs [] start out = Inr out"
| "contours_loop pts penX scale segs (end # ends) start out =
     (case slice pts start end of
        Inl e \<Rightarrow> Inl e
      | Inr contourPts \<Rightarrow>
          if length contourPts = 0 then contours_loop pts penX scale segs ends end out
          else
            (case flattenTrueTypeContour contourPts penX scale segs of
               Inl e \<Rightarrow> Inl e
             | Inr poly \<Rightarrow>
                 contours_loop pts penX scale segs ends end
                   (if length poly \<ge> 3 then out @ [poly] else out)))"

definition glyphContoursToPolylines ::
  "GlyphBuf \<Rightarrow> real \<Rightarrow> real \<Rightarrow> int \<Rightarrow> error + Contour list" where
  "glyphContoursToPolylines gb penX scale segs =
     contours_loop (Points gb) penX scale segs (Ends gb) 0 []"

section \<open>Fonts and options\<close>

text \<open>
  \<^verbatim>\<open>truetype.Font\<close> belongs to a library outside the repository; the program uses it
  through six operations, which are the fields of this record. \<open>Load\<close> stands for
  \<^verbatim>\<open>gb.Load(ttFont, fixedScale, idx, HintingNone)\<close> on a fresh buffer: \<open>None\<close> when it
  returns an error. \<open>Bounds_Max_Y\<close> is \<^verbatim>\<open>ttFont.Bounds(scale).Max.Y\<close> and
  \<open>HMetric_AdvanceWidth\<close> is \<^verbatim>\<open>ttFont.HMetric(scale, idx).AdvanceWidth\<close>.
\<close>

type_synonym rune = int
type_synonym glyph_index = nat

record Font =
  FUnitsPerEm :: int
  Bounds_Max_Y :: "int \<Rightarrow> int"
  Index :: "rune \<Rightarrow> glyph_index"
  Kern :: "int \<Rightarrow> glyph_index \<Rightarrow> glyph_index \<Rightarrow> int"
  HMetric_AdvanceWidth :: "int \<Rightarrow> glyph_index \<Rightarrow> int"
  Load :: "int \<Rightarrow> glyph_index \<Rightarrow> GlyphBuf option"

text \<open>
  The shaping library is outside the repository too. A face is the function from the
  runes, the flag "the kern feature is switched off" and the size to the shaped glyphs;
  \<open>XOffset_FU\<close> and \<open>XAdvance_FU\<close> are \<^verbatim>\<open>out.ToFontUnit(g.XOffset)\<close> and
  \<^verbatim>\<open>out.ToFontUnit(g.XAdvance)\<close>.
\<close>

record shaped_glyph =
  GlyphID :: nat
  XOffset_FU :: real
  XAdvance_FU :: real

type_synonym Face = "rune list \<Rightarrow> bool \<Rightarrow> int \<Rightarrow> shaped_glyph list"

record ParsedFont =
  TTFont :: "Font option"
  ascent :: real
  hbFace :: "Face option"

text \<open>\<^verbatim>\<open>HAlign\<close> and \<^verbatim>\<open>VAlign\<close> are integer types with named constants.\<close>

definition HAlignLeft :: int where "HAlignLeft = 0"
definition HAlignCenter :: int where "HAlignCenter = 1"
definition HAlignRight :: int where "HAlignRight = 2"

definition VAlignBaseline :: int where "VAlignBaseline = 0"
definition VAlignTop :: int where "VAlignTop = 1"
definition VAlignCenter :: int where "VAlignCenter = 2"
definition VAlignBottom :: int where "VAlignBottom = 3"

record Align =
  HAlign :: int
  VAlign :: int

record Options =
  Size :: real
  CurveSegs :: int
  Align :: Align
  Kerning :: bool
  Spacing :: real

section \<open>Alignment engine\<close>

definition computeAlign ::
  "Options \<Rightarrow> real \<Rightarrow> real \<Rightarrow> real \<Rightarrow> real \<Rightarrow> real \<Rightarrow> error + (real \<times> real)" where
  "computeAlign opt minX minY maxX maxY advanceWidth =
     (let width = maxX - minX in
      case (if HAlign (Align opt) = HAlignRight then Inr (- advanceWidth)
            else if HAlign (Align opt) = HAlignCenter then Inr (- (minX + width / 2))
            else if HAlign (Align opt) = HAlignLeft then Inr 0
            else Inl (Panic ''unknown HAlign'')) of
        Inl e \<Rightarrow> Inl e
      | Inr dx \<Rightarrow>
          (case (if VAlign (Align opt) = VAlignTop then Inr (- maxY)
                 else if VAlign (Align opt) = VAlignCenter then Inr (- (minY + (maxY - minY) / 2))
                 else if VAlign (Align opt) = VAlignBottom then Inr (- minY)
                 else if VAlign (Align opt) = VAlignBaseline then Inr 0
                 else Inl (Panic ''unknown VAlign'')) of
             Inl e \<Rightarrow> Inl e
           | Inr dy \<Rightarrow> Inr (dx, dy)))"

section \<open>Advance and kerning engine\<close>

text \<open>
  The variables of the layout loops of \<^verbatim>\<open>TextOutlines\<close>. A bound that is still at its
  initial infinity is \<open>None\<close>: \<^verbatim>\<open>minX\<close> and \<^verbatim>\<open>minY\<close> start at \<open>+\<infinity>\<close>,
  \<^verbatim>\<open>maxX\<close> and \<^verbatim>\<open>maxY\<close> at \<open>-\<infinity>\<close>.
\<close>

record layout_state =
  st_outlines :: Outlines
  st_minX :: "real option"
  st_minY :: "real option"
  st_maxX :: "real option"
  st_maxY :: "real option"
  st_penX :: real
  st_prev :: glyph_index
  st_hasPrev :: bool

text \<open>\<^verbatim>\<open>if v < min { min = v }\<close> and \<^verbatim>\<open>if v > max { max = v }\<close>.\<close>

definition lower_bound :: "real option \<Rightarrow> real \<Rightarrow> real option" where
  "lower_bound m v = (case m of None \<Rightarrow> Some v | Some b \<Rightarrow> if v < b then Some v else Some b)"

definition raise_bound :: "real option \<Rightarrow> real \<Rightarrow> real option" where
  "raise_bound m v = (case m of None \<Rightarrow> Some v | Some b \<Rightarrow> if v > b then Some v else Some b)"

definition bounds_point :: "layout_state \<Rightarrow> Coord \<Rightarrow> layout_state" where
  "bounds_point st p =
     st\<lparr>st_minX := lower_bound (st_minX st) (X p), st_minY := lower_bound (st_minY st) (Y p),
        st_maxX := raise_bound (st_maxX st) (X p), st_maxY := raise_bound (st_maxY st) (Y p)\<rparr>"

text \<open>\<^verbatim>\<open>for _, c := range contours { for _, p := range c { ... } }\<close>\<close>

definition bounds_contours :: "layout_state \<Rightarrow> Contour list \<Rightarrow> layout_state" where
  "bounds_contours st contours = foldl (\<lambda>s c. foldl bounds_point s c) st contours"

text \<open>
  One iteration of the fallback loop \<^verbatim>\<open>for _, r := range s\<close>. \<open>kerned_penX\<close> is the
  pen position after the kerning adjustment at the head of the loop body.
\<close>

definition kerned_penX :: "Font \<Rightarrow> Options \<Rightarrow> int \<Rightarrow> layout_state \<Rightarrow> glyph_index \<Rightarrow> real" where
  "kerned_penX ttFont opt fixedScale st idx =
     (if Kerning opt \<and> st_hasPrev st
      then st_penX st + (real_of_int (Kern ttFont fixedScale (st_prev st) idx) / 64) * Spacing opt
      else st_penX st)"

definition fallback_step ::
  "Font \<Rightarrow> Options \<Rightarrow> int \<Rightarrow> real \<Rightarrow> layout_state \<Rightarrow> rune \<Rightarrow> error + layout_state" where
  "fallback_step ttFont opt fixedScale scale st r =
     (let idx = Index ttFont r;
          penX = kerned_penX ttFont opt fixedScale st idx
      in case Load ttFont fixedScale idx of
           None \<Rightarrow>
             (let adv = HMetric_AdvanceWidth ttFont fixedScale idx in
              Inr (st\<lparr>st_penX := penX + (real_of_int adv / 64) * Spacing opt,
                      st_prev := idx, st_hasPrev := True\<rparr>))
         | Some gb \<Rightarrow>
             (case glyphContoursToPolylines gb penX scale (CurveSegs opt) of
                Inl e \<Rightarrow> Inl e
              | Inr contours \<Rightarrow>
                  (let st1 = bounds_contours st contours;
                       adv = HMetric_AdvanceWidth ttFont fixedScale idx
                   in Inr (st1\<lparr>st_outlines := st_outlines st1 @ contours,
                               st_penX := penX + (real_of_int adv / 64) * Spacing opt,
                               st_prev := idx, st_hasPrev := True\<rparr>))))"

fun fallback_loop ::
  "Font \<Rightarrow> Options \<Rightarrow> int \<Rightarrow> real \<Rightarrow> layout_state \<Rightarrow> rune list \<Rightarrow> error + layout_state" where
  "fallback_loop ttFont opt fixedScale scale st [] = Inr st"
| "fallback_loop ttFont opt fixedScale scale st (r # rs) =
     (case fallback_step ttFont opt fixedScale scale st r of
        Inl e \<Rightarrow> Inl e
      | Inr st' \<Rightarrow> fallback_loop ttFont opt fixedScale scale st' rs)"

text \<open>The shaping path.\<close>

record positionedGlyph =
  pg_index :: glyph_index
  pg_penX :: real

text \<open>
  \<^verbatim>\<open>for _, g := range out.Glyphs\<close> of \<^verbatim>\<open>shapeGlyphsWithHarfBuzz\<close>;
  \<^verbatim>\<open>truetype.Index\<close> is a 16-bit type, so the conversion of the glyph id truncates.
\<close>

fun shape_loop ::
  "Options \<Rightarrow> shaped_glyph list \<Rightarrow> real \<Rightarrow> positionedGlyph list
     \<Rightarrow> positionedGlyph list \<times> real" where
  "shape_loop opt [] penX res = (res, penX)"
| "shape_loop opt (g # gs) penX res =
     shape_loop opt gs (penX + XAdvance_FU g * Spacing opt)
       (res @ [\<lparr>pg_index = GlyphID g mod 65536, pg_penX = penX + XOffset_FU g\<rparr>])"

definition shapeGlyphsWithHarfBuzz ::
  "ParsedFont option \<Rightarrow> rune list \<Rightarrow> Options \<Rightarrow> (positionedGlyph list \<times> real) option" where
  "shapeGlyphsWithHarfBuzz parsed runes opt =
     (case parsed of
        None \<Rightarrow> None
      | Some pf \<Rightarrow>
          (case hbFace pf of
             None \<Rightarrow> None
           | Some face \<Rightarrow>
               (case TTFont pf of
                  None \<Rightarrow> None
                | Some ttFont \<Rightarrow>
                    if length runes = 0 then Some ([], 0)
                    else Some (shape_loop opt
                                 (face runes (\<not> Kerning opt) (FUnitsPerEm ttFont * 64)) 0 []))))"

text \<open>One iteration of \<^verbatim>\<open>for _, g := range hbGlyphs\<close> in \<^verbatim>\<open>TextOutlines\<close>.\<close>

definition shaped_step ::
  "Font \<Rightarrow> Options \<Rightarrow> int \<Rightarrow> real \<Rightarrow> layout_state \<Rightarrow> positionedGlyph \<Rightarrow> error + layout_state" where
  "shaped_step ttFont opt fixedScale scale st g =
     (case Load ttFont fixedScale (pg_index g) of
        None \<Rightarrow> Inr st
      | Some gb \<Rightarrow>
          (case glyphContoursToPolylines gb (pg_penX g) scale (CurveSegs opt) of
             Inl e \<Rightarrow> Inl e
           | Inr contours \<Rightarrow>
               (let st1 = bounds_contours st contours in
                Inr (st1\<lparr>st_outlines := st_outlines st1 @ contours\<rparr>))))"

fun shaped_loop ::
  "Font \<Rightarrow> Options \<Rightarrow> int \<Rightarrow> real \<Rightarrow> layout_state \<Rightarrow> positionedGlyph list
     \<Rightarrow> error + layout_state" where
  "shaped_loop ttFont opt fixedScale scale st [] = Inr st"
| "shaped_loop ttFont opt fixedScale scale st (g # gs) =
     (case shaped_step ttFont opt fixedScale scale st g of
        Inl e \<Rightarrow> Inl e
      | Inr st' \<Rightarrow> shaped_loop ttFont opt fixedScale scale st' gs)"

section \<open>Text to outlines\<close>

definition initial_state :: layout_state where
  "initial_state =
     \<lparr>st_outlines = [], st_minX = None, st_minY = None, st_maxX = None, st_maxY = None,
      st_penX = 0, st_prev = 0, st_hasPrev = False\<rparr>"

text \<open>
  The two layout paths of \<^verbatim>\<open>TextOutlines\<close>: the state after the loop and
  \<^verbatim>\<open>layoutAdvance\<close>.
\<close>

definition layoutRun ::
  "ParsedFont option \<Rightarrow> Font \<Rightarrow> rune list \<Rightarrow> Options \<Rightarrow> int \<Rightarrow> real
     \<Rightarrow> error + (layout_state \<times> real)" where
  "layoutRun parsed ttFont s opt fixedScale scale =
     (case shapeGlyphsWithHarfBuzz parsed s opt of
        Some (hbGlyphs, hbAdvance) \<Rightarrow>
          (case shaped_loop ttFont opt fixedScale scale initial_state hbGlyphs of
             Inl e \<Rightarrow> Inl e
           | Inr st \<Rightarrow> Inr (st, hbAdvance))
      | None \<Rightarrow>
          (case fallback_loop ttFont opt fixedScale scale initial_state s of
             Inl e \<Rightarrow> Inl e
           | Inr st \<Rightarrow> Inr (st, st_penX st)))"

text \<open>
  The value of a bound where \<^verbatim>\<open>computeAlign\<close> is called. The program calls it only
  when there is an outline, and then no bound is infinite (lemma
  \<open>layoutRun_bounds_finite\<close>), so the value given to \<open>None\<close> is never used.
\<close>

definition bound_value :: "real option \<Rightarrow> real" where
  "bound_value m = (case m of Some v \<Rightarrow> v | None \<Rightarrow> 0)"

definition translate :: "real \<Rightarrow> real \<Rightarrow> Outlines \<Rightarrow> Outlines" where
  "translate dx dy outlines = map (map (\<lambda>p. p\<lparr>X := X p + dx, Y := Y p + dy\<rparr>)) outlines"

text \<open>
  \<^verbatim>\<open>opt\<close> is a copy the function normalises: \<open>normalizeSegs\<close> and \<open>normalizeSpacing\<close>
  are the two assignments. \<^verbatim>\<open>int32(upem * 64)\<close> is \<open>FUnitsPerEm * 64\<close> (no overflow for
  the units per em of a font).
\<close>

definition normalizeSegs :: "Options \<Rightarrow> Options" where
  "normalizeSegs opt = (if CurveSegs opt \<le> 0 then opt\<lparr>CurveSegs := 8\<rparr> else opt)"

definition normalizeSpacing :: "Options \<Rightarrow> Options" where
  "normalizeSpacing opt = (if Spacing opt = 0 then opt\<lparr>Spacing := 1\<rparr> else opt)"

definition fontScale :: "ParsedFont \<Rightarrow> Font \<Rightarrow> Options \<Rightarrow> real" where
  "fontScale pf ttFont opt =
     (let upem = real_of_int (FUnitsPerEm ttFont);
          ascent0 = ascent pf;
          ascent1 = (if ascent0 \<le> 0
                     then real_of_int (Bounds_Max_Y ttFont (FUnitsPerEm ttFont)) else ascent0);
          ascent2 = (if ascent1 \<le> 0 then upem else ascent1)
      in Size opt / ascent2)"

definition TextOutlines :: "ParsedFont option \<Rightarrow> rune list \<Rightarrow> Options \<Rightarrow> error + Outlines" where
  "TextOutlines parsed s opt0 =
     (case parsed of
        None \<Rightarrow> Inl (Error ''nil font'')
      | Some pf \<Rightarrow>
          (case TTFont pf of
             None \<Rightarrow> Inl (Error ''nil font'')
           | Some ttFont \<Rightarrow>
               if Size opt0 \<le> 0 then Inl (Error ''Size must be > 0'')
               else
                 (let opt = normalizeSpacing (normalizeSegs opt0) in
                  if Spacing opt < 0 then Inl (Error ''Spacing must be >= 0'')
                  else
                    (let scale = fontScale pf ttFont opt;
                         fixedScale = FUnitsPerEm ttFont * 64
                     in case layoutRun parsed ttFont s opt fixedScale scale of
                          Inl e \<Rightarrow> Inl e
                        | Inr (st, layoutAdvance) \<Rightarrow>
                            if length (st_outlines st) = 0 then Inr []
                            else
                              (case computeAlign opt
                                      (bound_value (st_minX st)) (bound_value (st_minY st))
                                      (bound_value (st_maxX st)) (bound_value (st_maxY st))
                                      (layoutAdvance * scale) of
                                 Inl e \<Rightarrow> Inl e
                               | Inr (dx, dy) \<Rightarrow> Inr (translate dx dy (st_outlines st)))))))"

section \<open>Binary table reader\<close>

type_synonym byte = "8 word"

text \<open>\<^verbatim>\<open>binary.BigEndian.Uint16\<close> and \<^verbatim>\<open>Uint32\<close>, on slices of two and four bytes.\<close>

definition Uint16 :: "byte list \<Rightarrow> nat" where
  "Uint16 b = unat (b ! 0) * 256 + unat (b ! 1)"

definition Uint32 :: "byte list \<Rightarrow> nat" where
  "Uint32 b = unat (b ! 0) * 16777216 + unat (b ! 1) * 65536 + unat (b ! 2) * 256 + unat (b ! 3)"

text \<open>
  A value of Go's \<^verbatim>\<open>int\<close> on a platform where it has \<open>bits\<close> bits (two's complement
  wrap-around), and the conversion \<^verbatim>\<open>int16(...)\<close> of an unsigned 16-bit value.
\<close>

definition go_int :: "nat \<Rightarrow> int \<Rightarrow> int" where
  "go_int bits v = (v + 2 ^ (bits - 1)) mod 2 ^ bits - 2 ^ (bits - 1)"

definition int16 :: "nat \<Rightarrow> int" where
  "int16 v = (int v + 32768) mod 65536 - 32768"

definition os2Tag :: "byte list" where
  "os2Tag = [79, 83, 47, 50]"

text \<open>
  The loop \<^verbatim>\<open>for i := 0; i < numTables; i++\<close> of \<^verbatim>\<open>parseOS2TypoAscender\<close>. Every
  slice expression is a call of \<^const>\<open>slice\<close>, so an access out of range is a panic of
  the model.
\<close>

function scanTables :: "nat \<Rightarrow> byte list \<Rightarrow> int \<Rightarrow> int \<Rightarrow> error + (real \<times> bool)" where
  "scanTables bits data numTables i =
     (if i < numTables then
        (let recOff = 12 + i * 16 in
         case slice data recOff (recOff + 4) of
           Inl e \<Rightarrow> Inl e
         | Inr tag \<Rightarrow>
             if tag \<noteq> os2Tag then scanTables bits data numTables (i + 1)
             else
               (case slice data (recOff + 8) (recOff + 12) of
                  Inl e \<Rightarrow> Inl e
                | Inr b1 \<Rightarrow>
                    (case slice data (recOff + 12) (recOff + 16) of
                       Inl e \<Rightarrow> Inl e
                     | Inr b2 \<Rightarrow>
                         (let tableOffset = go_int bits (int (Uint32 b1));
                              tableLen = go_int bits (int (Uint32 b2))
                          in if tableOffset < 0 \<or> tableLen < 0
                                \<or> go_int bits (tableOffset + tableLen) > int (length data)
                                \<or> tableLen < 68 + 2
                             then Inr (0, False)
                             else
                               (case slice data (go_int bits (tableOffset + 68))
                                       (go_int bits (go_int bits (tableOffset + 68) + 2)) of
                                  Inl e \<Rightarrow> Inl e
                                | Inr b \<Rightarrow>
                                    (let raw = int16 (Uint16 b) in
                                     Inr (real_of_int raw, raw > 0)))))))
      else Inr (0, False))"
  by pat_completeness auto
termination
  by (relation "measure (\<lambda>(bits, data, numTables, i). nat (numTables - i))") auto

declare scanTables.simps [simp del]

definition parseOS2TypoAscender :: "nat \<Rightarrow> byte list \<Rightarrow> error + (real \<times> bool)" where
  "parseOS2TypoAscender bits data =
     (if int (length data) < 12 then Inr (0, False)
      else
        (case slice data 4 6 of
           Inl e \<Rightarrow> Inl e
         | Inr b \<Rightarrow>
             (let numTables = int (Uint16 b) in
              if numTables < 0 \<or> int (length data) < 12 + numTables * 16 then Inr (0, False)
              else scanTables bits data numTables 0)))"

section \<open>A small font for concrete runs\<close>

text \<open>
  Glyph 1 is the triangle \<open>(100, 0), (500, 0), (300, 700)\<close> (font units, stored in 26.6
  fixed point); glyph 2 is a contour of three on-curve points of which the last two
  coincide; every other glyph fails to load. All advances are 600 units, and the only
  kerning pair is (glyph 3, glyph 1) with -50 units. The runes 65, 66 and 67 map to the
  glyphs 1, 2 and 3.
\<close>

definition triangleGlyph :: GlyphBuf where
  "triangleGlyph =
     \<lparr>Points = [\<lparr>PX = 6400, PY = 0, Flags = 1\<rparr>, \<lparr>PX = 32000, PY = 0, Flags = 1\<rparr>,
                \<lparr>PX = 19200, PY = 44800, Flags = 1\<rparr>],
      Ends = [3]\<rparr>"

definition repeatedPointGlyph :: GlyphBuf where
  "repeatedPointGlyph =
     \<lparr>Points = [\<lparr>PX = 0, PY = 0, Flags = 1\<rparr>, \<lparr>PX = 51200, PY = 0, Flags = 1\<rparr>,
                \<lparr>PX = 51200, PY = 0, Flags = 1\<rparr>],
      Ends = [3]\<rparr>"

definition exampleFont :: Font where
  "exampleFont =
     \<lparr>FUnitsPerEm = 1000,
      Bounds_Max_Y = (\<lambda>scale. 900),
      Index = (\<lambda>r. if r = 65 then 1 else if r = 66 then 2 else if r = 67 then 3 else 0),
      Kern = (\<lambda>scale a b. if a = 3 \<and> b = 1 then - 3200 else 0),
      HMetric_AdvanceWidth = (\<lambda>scale idx. 38400),
      Load = (\<lambda>scale idx. if idx = 1 then Some triangleGlyph
                           else if idx = 2 then Some repeatedPointGlyph else None)\<rparr>"

definition exampleParsed :: ParsedFont where
  "exampleParsed = \<lparr>TTFont = Some exampleFont, ascent = 800, hbFace = None\<rparr>"

definition exampleOptions :: Options where
  "exampleOptions =
     \<lparr>Size = 10, CurveSegs = 0, Align = \<lparr>HAlign = HAlignLeft, VAlign = VAlignBaseline\<rparr>,
      Kerning = True, Spacing = 0\<rparr>"

text \<open>
  A contour whose first and last points are both off-curve: the control point
  \<open>(2, 2)\<close>, the on-curve point \<open>(4, 0)\<close> and the control point \<open>(2, -2)\<close> (26.6 fixed
  point).
\<close>

definition offcurveEndsContour :: "Point list" where
  "offcurveEndsContour =
     [\<lparr>PX = 128, PY = 128, Flags = 0\<rparr>, \<lparr>PX = 256, PY = 0, Flags = 1\<rparr>,
      \<lparr>PX = 128, PY = - 128, Flags = 0\<rparr>]"

section \<open>Predicates of the specification\<close>

text \<open>A produced contour: at least four points, the last one repeating the first.\<close>

definition contour_ok :: "Contour \<Rightarrow> bool" where
  "contour_ok c \<longleftrightarrow> 4 \<le> length c \<and> hd c = last c"

text \<open>No bound of the bounding box is at its initial infinity any more.\<close>

definition finite_bounds :: "layout_state \<Rightarrow> bool" where
  "finite_bounds st \<longleftrightarrow>
     st_minX st \<noteq> None \<and> st_minY st \<noteq> None \<and> st_maxX st \<noteq> None \<and> st_maxY st \<noteq> None"

text \<open>What holds of the layout variables after every iteration.\<close>

definition layout_inv :: "layout_state \<Rightarrow> bool" where
  "layout_inv st \<longleftrightarrow>
     (\<forall>c \<in> set (st_outlines st). contour_ok c) \<and> (st_outlines st \<noteq> [] \<longrightarrow> finite_bounds st)"










text \<open>
  An input of 28 bytes with one directory record: tag \<open>OS/2\<close>, offset \<open>0x7FFFFF00\<close> and
  length \<open>0x100\<close>.
\<close>

definition overflowingFont :: "byte list" where
  "overflowingFont =
     [0, 1, 0, 0, 0, 1, 0, 0, 0, 0, 0, 0,
      79, 83, 47, 50, 0, 0, 0, 0, 127, 255, 255, 0, 0, 0, 1, 0]"


section \<open>Properties of the curve flattener\<close>

lemma flattenQuad_point:
  "Add (Add (Scale p0 ((1 - t) * (1 - t))) (Scale p1 (2 * (1 - t) * t))) (Scale p2 (t * t))
     = bezier_spec p0 p1 p2 t"
  by (simp add: Add_def Scale_def bezier_spec_def power2_eq_square algebra_simps)

lemma flattenQuad_loop_step:
  "flattenQuad_loop p0 p1 p2 segs i out =
     (if i \<le> segs
      then flattenQuad_loop p0 p1 p2 segs (i + 1)
             (out @ [bezier_spec p0 p1 p2 (real_of_int i / real_of_int segs)])
      else out)"
  by (subst flattenQuad_loop.simps) (simp only: Let_def flattenQuad_point)

lemma flattenQuad_loop_upto:
  "flattenQuad_loop p0 p1 p2 segs i out =
     out @ map (\<lambda>k. bezier_spec p0 p1 p2 (real_of_int k / real_of_int segs)) [i..segs]"
proof (induction p0 p1 p2 segs i out rule: flattenQuad_loop.induct)
  case (1 p0 p1 p2 segs i out)
  show ?case
  proof (cases "i \<le> segs")
    case True
    then have u: "[i..segs] = i # [i + 1..segs]"
      by (simp add: upto_rec1)
    have ih: "flattenQuad_loop p0 p1 p2 segs (i + 1)
                (out @ [bezier_spec p0 p1 p2 (real_of_int i / real_of_int segs)]) =
              (out @ [bezier_spec p0 p1 p2 (real_of_int i / real_of_int segs)]) @
              map (\<lambda>k. bezier_spec p0 p1 p2 (real_of_int k / real_of_int segs)) [i + 1..segs]"
      using 1 [OF True refl refl refl] by (simp only: flattenQuad_point)
    show ?thesis
      by (subst flattenQuad_loop_step) (simp only: True if_True ih u list.map append.simps append_assoc)
  next
    case False
    then show ?thesis
      by (subst flattenQuad_loop_step) simp
  qed
qed

lemma flattenQuad_eq:
  "0 \<le> segs \<Longrightarrow> flattenQuad p0 p1 p2 segs =
     Inr (map (\<lambda>k. bezier_spec p0 p1 p2 (real_of_int k / real_of_int segs)) [1..segs])"
  by (simp add: flattenQuad_def flattenQuad_loop_upto)

lemma bezier_spec_at_1: "bezier_spec p0 c p2 1 = p2"
  by (simp add: bezier_spec_def)

text \<open>
  Claim C8. For every \<open>segs \<ge> 1\<close>, \<open>flattenQuad p0 ctrl p2 segs\<close> returns exactly \<open>segs\<close>
  points; its \<open>k\<close>-th point (counting from 1) is the value of the quadratic Bezier curve
  \<open>(1 - t)\<^sup>2 \<cdot> p0 + 2 (1 - t) t \<cdot> ctrl + t\<^sup>2 \<cdot> p2\<close> at \<open>t = k / segs\<close>; these parameters lie
  in the interval \<open>(0, 1]\<close>, so \<open>t = 0\<close> (the point \<open>p0\<close>) is not among them and the last
  point, at \<open>t = 1\<close>, is \<open>p2\<close>. The result is a function of the four arguments alone.
\<close>

theorem flattenQuad_bezier:
  assumes "1 \<le> segs"
  shows "\<exists>pts. flattenQuad p0 ctrl p2 segs = Inr pts \<and> length pts = nat segs \<and>
           (\<forall>k. 1 \<le> k \<and> k \<le> segs \<longrightarrow>
                pts ! nat (k - 1) = bezier_spec p0 ctrl p2 (real_of_int k / real_of_int segs) \<and>
                0 < real_of_int k / real_of_int segs \<and> real_of_int k / real_of_int segs \<le> 1) \<and>
           last pts = p2"
proof -
  let ?f = "\<lambda>k. bezier_spec p0 ctrl p2 (real_of_int k / real_of_int segs)"
  let ?pts = "map ?f [1..segs]"
  have eq: "flattenQuad p0 ctrl p2 segs = Inr ?pts"
    using assms by (simp add: flattenQuad_eq)
  have len: "length ?pts = nat segs"
    by simp
  have nth: "?pts ! nat (k - 1) = ?f k" if "1 \<le> k" "k \<le> segs" for k
  proof -
    have "nat (k - 1) < length [1..segs]" using that by simp
    then have "?pts ! nat (k - 1) = ?f ([1..segs] ! nat (k - 1))"
      by (rule nth_map)
    also have "[1..segs] ! nat (k - 1) = 1 + int (nat (k - 1))"
      using that by (intro nth_upto) simp
    also have "\<dots> = k" using that by simp
    finally show ?thesis .
  qed
  have rng: "0 < real_of_int k / real_of_int segs \<and> real_of_int k / real_of_int segs \<le> 1"
    if "1 \<le> k" "k \<le> segs" for k
    using that assms by simp
  have "[1..segs] = [1..segs - 1] @ [segs]"
    using assms by (simp add: upto_rec2)
  then have "last ?pts = ?f segs"
    by (metis (no_types, lifting) last_map last_snoc snoc_eq_iff_butlast)
  then have lst: "last ?pts = p2"
    using assms by (simp add: bezier_spec_at_1)
  show ?thesis
    using eq len nth rng lst by blast
qed

theorem flattenQuad_bezier_witness:
  "(1::int) \<le> 2 \<and>
   flattenQuad \<lparr>X = 0, Y = 0\<rparr> \<lparr>X = 1, Y = 2\<rparr> \<lparr>X = 2, Y = 0\<rparr> 2
     = Inr [\<lparr>X = 1, Y = 1\<rparr>, \<lparr>X = 2, Y = 0\<rparr>]"
proof -
  obtain pts where h: "flattenQuad \<lparr>X = 0, Y = 0\<rparr> \<lparr>X = 1, Y = 2\<rparr> \<lparr>X = 2, Y = 0\<rparr> 2 = Inr pts"
    "length pts = 2"
    "pts ! nat (1 - 1) = bezier_spec \<lparr>X = 0, Y = 0\<rparr> \<lparr>X = 1, Y = 2\<rparr> \<lparr>X = 2, Y = 0\<rparr> (real_of_int 1 / real_of_int 2)"
    "last pts = \<lparr>X = 2, Y = 0\<rparr>"
    using flattenQuad_bezier [of 2 "\<lparr>X = 0, Y = 0\<rparr>" "\<lparr>X = 1, Y = 2\<rparr>" "\<lparr>X = 2, Y = 0\<rparr>"]
    by force
  from h(2) obtain a b where ab: "pts = [a, b]"
    by (metis (no_types, opaque_lifting) Suc_length_conv length_0_conv numeral_2_eq_2)
  have "a = \<lparr>X = 1, Y = 1\<rparr>"
    using h(3) ab by (simp add: bezier_spec_def power2_eq_square)
  moreover have "b = \<lparr>X = 2, Y = 0\<rparr>"
    using h(4) ab by simp
  ultimately show ?thesis using h(1) ab by simp
qed

section \<open>Properties of the glyph outline decoder\<close>

lemma Mid_exact: "Mid a b = \<lparr>X = (X a + X b) / 2, Y = (Y a + Y b) / 2\<rparr>"
  by (simp add: Mid_def Add_def Scale_def)

lemma walk_step_index:
  "walk_step pts penX scale segs st = Inr st' \<Longrightarrow> w_i st' = (w_i st + 1) mod length pts"
  by (auto simp: walk_step_def Let_def split: if_splits sum.splits)

lemma walk_index:
  "w_i st < length pts \<Longrightarrow> walk k pts penX scale segs st = Inr st' \<Longrightarrow>
     w_i st' = (w_i st + k) mod length pts"
proof (induction k arbitrary: st)
  case 0
  then show ?case by simp
next
  case (Suc k)
  then obtain st1 where s1: "walk_step pts penX scale segs st = Inr st1"
    and s2: "walk k pts penX scale segs st1 = Inr st'"
    by (auto split: sum.splits)
  have i1: "w_i st1 = (w_i st + 1) mod length pts"
    using walk_step_index [OF s1] .
  have "length pts > 0" using Suc.prems(1) by auto
  then have "w_i st1 < length pts" using i1 by simp
  then have "w_i st' = (w_i st1 + k) mod length pts"
    using Suc.IH s2 by blast
  then show ?case
    using i1 by (simp add: mod_add_left_eq)
qed

lemma chooseStart_index: "pts \<noteq> [] \<Longrightarrow> snd (chooseStart pts penX scale) < length pts"
  by (simp add: chooseStart_def Let_def)

lemma initWalk_index:
  "pts \<noteq> [] \<Longrightarrow> w_i (initWalk pts penX scale) = (snd (chooseStart pts penX scale) + 1) mod length pts"
  by (simp add: initWalk_def split_beta)

lemma walk_index_in_range:
  assumes "pts \<noteq> []" and "walk k pts penX scale segs (initWalk pts penX scale) = Inr st"
  shows "w_i st < length pts"
    and "w_i st = (snd (chooseStart pts penX scale) + 1 + k) mod length pts"
proof -
  have r: "w_i (initWalk pts penX scale) < length pts"
    using assms(1) by (simp add: initWalk_index)
  show "w_i st = (snd (chooseStart pts penX scale) + 1 + k) mod length pts"
    using walk_index [OF r assms(2)] assms(1) by (simp add: initWalk_index mod_add_left_eq)
  then show "w_i st < length pts"
    using assms(1) by simp
qed

subsection \<open>Closure of the polyline\<close>

lemma walk_step_poly:
  "walk_step pts penX scale segs st = Inr st' \<Longrightarrow> \<exists>q. w_poly st' = w_poly st @ q"
  by (auto simp: walk_step_def Let_def split: if_splits sum.splits)

lemma walk_poly:
  "walk k pts penX scale segs st = Inr st' \<Longrightarrow> \<exists>q. w_poly st' = w_poly st @ q"
proof (induction k arbitrary: st)
  case 0
  then show ?case by simp
next
  case (Suc k)
  then obtain st1 where s1: "walk_step pts penX scale segs st = Inr st1"
    and s2: "walk k pts penX scale segs st1 = Inr st'"
    by (auto split: sum.splits)
  from walk_step_poly [OF s1] obtain q1 where "w_poly st1 = w_poly st @ q1" ..
  moreover from Suc.IH [OF s2] obtain q2 where "w_poly st' = w_poly st1 @ q2" ..
  ultimately show ?case by simp
qed

lemma closeContour_closed:
  assumes "closeContour st start segs = Inr poly" and "w_poly st \<noteq> []"
  shows "poly = [] \<or> (contour_ok poly \<and> hd poly = hd (w_poly st))"
proof -
  define stage1 where "stage1 =
    (if w_haveCtrl st then
       (case flattenQuad (w_prevOn st) (w_ctrl st) start segs of
          Inl e \<Rightarrow> Inl e
        | Inr q \<Rightarrow> Inr (w_poly st @ q))
     else if last (w_poly st) \<noteq> start then Inr (w_poly st @ [start])
     else Inr (w_poly st))"
  have cc: "closeContour st start segs =
     (case stage1 of
        Inl e \<Rightarrow> Inl e
      | Inr poly1 \<Rightarrow>
          (let poly2 = (if last poly1 \<noteq> hd poly1 then poly1 @ [hd poly1] else poly1) in
           if length poly2 < 4 then Inr [] else Inr poly2))"
    by (simp only: closeContour_def stage1_def)
  then obtain poly1 where s1: "stage1 = Inr poly1"
    using assms(1) by (cases stage1) simp_all
  have "\<exists>q. poly1 = w_poly st @ q"
    using s1 unfolding stage1_def
    by (cases "flattenQuad (w_prevOn st) (w_ctrl st) start segs") (auto split: if_splits)
  with assms(2) have ne: "poly1 \<noteq> []" and h: "hd poly1 = hd (w_poly st)"
    by auto
  have p2: "poly = (if length (if last poly1 \<noteq> hd poly1 then poly1 @ [hd poly1] else poly1) < 4
                   then [] else (if last poly1 \<noteq> hd poly1 then poly1 @ [hd poly1] else poly1))"
  proof -
    have "Inr poly =
       (let poly2 = (if last poly1 \<noteq> hd poly1 then poly1 @ [hd poly1] else poly1) in
        if length poly2 < 4 then Inr [] else (Inr poly2 :: error + Contour))"
      using assms(1) cc s1 by simp
    then show ?thesis
      by (simp only: Let_def split: if_splits) simp_all
  qed
  show ?thesis
  proof (cases "last poly1 \<noteq> hd poly1")
    case True
    then show ?thesis using p2 ne h by (auto simp: contour_ok_def)
  next
    case False
    then show ?thesis using p2 ne h by (auto simp: contour_ok_def)
  qed
qed

lemma flattenTrueTypeContour_closed:
  assumes "flattenTrueTypeContour pts penX scale segs = Inr poly"
  shows "poly = [] \<or> (contour_ok poly \<and> hd poly = fst (chooseStart pts penX scale))"
proof (cases "pts = []")
  case True
  then show ?thesis using assms by (simp add: flattenTrueTypeContour_def)
next
  case False
  then obtain st where w: "walk (length pts) pts penX scale segs (initWalk pts penX scale) = Inr st"
    and c: "closeContour st (fst (chooseStart pts penX scale)) segs = Inr poly"
    using assms by (auto simp: flattenTrueTypeContour_def Let_def split: if_splits sum.splits)
  from walk_poly [OF w] obtain q where q: "w_poly st = w_poly (initWalk pts penX scale) @ q" ..
  have i: "w_poly (initWalk pts penX scale) = [fst (chooseStart pts penX scale)]"
    by (simp add: initWalk_def split_beta)
  have "w_poly st \<noteq> []" and "hd (w_poly st) = fst (chooseStart pts penX scale)"
    using q i by simp_all
  then show ?thesis
    using closeContour_closed [OF c] by auto
qed

lemma contours_loop_ok:
  "contours_loop pts penX scale segs ends start out = Inr res \<Longrightarrow>
     \<forall>c \<in> set out. contour_ok c \<Longrightarrow> \<forall>c \<in> set res. contour_ok c"
proof (induction pts penX scale segs ends start out rule: contours_loop.induct)
  case (1 pts penX scale segs start out)
  then show ?case by simp
next
  case (2 pts penX scale segs e ends start out)
  from "2.prems"(1) obtain contourPts where sl: "slice pts start e = Inr contourPts"
    by (auto split: sum.splits)
  show ?case
  proof (cases "length contourPts = 0")
    case True
    then show ?thesis
      using 2 sl by auto
  next
    case False
    with "2.prems"(1) sl obtain poly where
      f: "flattenTrueTypeContour contourPts penX scale segs = Inr poly"
      and r: "contours_loop pts penX scale segs ends e
                (if length poly \<ge> 3 then out @ [poly] else out) = Inr res"
      by (auto split: sum.splits)
    have "\<forall>c \<in> set (if length poly \<ge> 3 then out @ [poly] else out). contour_ok c"
      using flattenTrueTypeContour_closed [OF f] "2.prems"(2) by auto
    then show ?thesis
      using "2.IH"(2) [OF sl False f r] by blast
  qed
qed

lemma glyphContoursToPolylines_ok:
  "glyphContoursToPolylines gb penX scale segs = Inr contours \<Longrightarrow> \<forall>c \<in> set contours. contour_ok c"
  unfolding glyphContoursToPolylines_def by (erule contours_loop_ok) simp

subsection \<open>The walk over the points\<close>

lemma last_bezier_points:
  assumes "1 \<le> segs"
  shows "last (map (\<lambda>k. bezier_spec p0 c p2 (real_of_int k / real_of_int segs)) [1..segs]) = p2"
proof -
  have "[1..segs] = [1..segs - 1] @ [segs]"
    using assms by (simp add: upto_rec2)
  then have "map (\<lambda>k. bezier_spec p0 c p2 (real_of_int k / real_of_int segs)) [1..segs] =
             map (\<lambda>k. bezier_spec p0 c p2 (real_of_int k / real_of_int segs)) [1..segs - 1] @
             [bezier_spec p0 c p2 (real_of_int segs / real_of_int segs)]"
    by simp
  then show ?thesis
    using assms by (simp add: bezier_spec_at_1)
qed

text \<open>
  Claim C2. When the walk of \<open>flattenTrueTypeContour\<close> meets an off-curve point while a
  control point is pending, the iteration takes the midpoint of the pending control and
  the new point as an implied on-curve point, appends the flattened quadratic from the
  previous on-curve point through the pending control to that midpoint (its last point
  is the midpoint), makes the midpoint the previous on-curve point and keeps the new
  point as the pending control. Every iteration of the walk, whatever the point,
  advances the index by one position modulo the number of points.
\<close>

theorem flattenTrueTypeContour_pending_offcurve:
  assumes "\<not> onCurve (pts ! w_i st)" and "w_haveCtrl st" and "1 \<le> segs"
  shows "walk_step pts penX scale segs st =
           Inr (st\<lparr>w_poly := w_poly st @
                     map (\<lambda>k. bezier_spec (w_prevOn st) (w_ctrl st)
                                 (Mid (w_ctrl st) (toVec penX scale (pts ! w_i st)))
                                 (real_of_int k / real_of_int segs)) [1..segs],
                   w_prevOn := Mid (w_ctrl st) (toVec penX scale (pts ! w_i st)),
                   w_ctrl := toVec penX scale (pts ! w_i st),
                   w_haveCtrl := True,
                   w_i := (w_i st + 1) mod length pts\<rparr>)
         \<and> Mid (w_ctrl st) (toVec penX scale (pts ! w_i st)) =
             \<lparr>X = (X (w_ctrl st) + X (toVec penX scale (pts ! w_i st))) / 2,
              Y = (Y (w_ctrl st) + Y (toVec penX scale (pts ! w_i st))) / 2\<rparr>
         \<and> last (map (\<lambda>k. bezier_spec (w_prevOn st) (w_ctrl st)
                                 (Mid (w_ctrl st) (toVec penX scale (pts ! w_i st)))
                                 (real_of_int k / real_of_int segs)) [1..segs]) =
             Mid (w_ctrl st) (toVec penX scale (pts ! w_i st))
         \<and> (\<forall>s s'. walk_step pts penX scale segs s = Inr s' \<longrightarrow>
                w_i s' = (w_i s + 1) mod length pts)"
proof -
  have "0 \<le> segs" using assms(3) by simp
  then have "flattenQuad (w_prevOn st) (w_ctrl st) (Mid (w_ctrl st) (toVec penX scale (pts ! w_i st))) segs =
        Inr (map (\<lambda>k. bezier_spec (w_prevOn st) (w_ctrl st)
                                 (Mid (w_ctrl st) (toVec penX scale (pts ! w_i st)))
                                 (real_of_int k / real_of_int segs)) [1..segs])"
    by (rule flattenQuad_eq)
  then have "walk_step pts penX scale segs st =
           Inr (st\<lparr>w_poly := w_poly st @
                     map (\<lambda>k. bezier_spec (w_prevOn st) (w_ctrl st)
                                 (Mid (w_ctrl st) (toVec penX scale (pts ! w_i st)))
                                 (real_of_int k / real_of_int segs)) [1..segs],
                   w_prevOn := Mid (w_ctrl st) (toVec penX scale (pts ! w_i st)),
                   w_ctrl := toVec penX scale (pts ! w_i st),
                   w_haveCtrl := True,
                   w_i := (w_i st + 1) mod length pts\<rparr>)"
    using assms(1,2) by (simp add: walk_step_def Let_def)
  then show ?thesis
    using Mid_exact last_bezier_points [OF assms(3)] walk_step_index by blast
qed

theorem flattenTrueTypeContour_pending_offcurve_witness:
  "\<not> onCurve ([\<lparr>PX = 0, PY = 0, Flags = 1\<rparr>, \<lparr>PX = 128, PY = 128, Flags = 0\<rparr>,
               \<lparr>PX = 256, PY = 0, Flags = 0\<rparr>] ! 2) \<and>
   walk_step [\<lparr>PX = 0, PY = 0, Flags = 1\<rparr>, \<lparr>PX = 128, PY = 128, Flags = 0\<rparr>,
              \<lparr>PX = 256, PY = 0, Flags = 0\<rparr>] 0 1 2
     \<lparr>w_poly = [\<lparr>X = 0, Y = 0\<rparr>], w_prevOn = \<lparr>X = 0, Y = 0\<rparr>, w_haveCtrl = True,
      w_ctrl = \<lparr>X = 2, Y = 2\<rparr>, w_i = 2\<rparr> =
     Inr \<lparr>w_poly = [\<lparr>X = 0, Y = 0\<rparr>, \<lparr>X = 7 / 4, Y = 5 / 4\<rparr>, \<lparr>X = 3, Y = 1\<rparr>],
          w_prevOn = \<lparr>X = 3, Y = 1\<rparr>, w_haveCtrl = True, w_ctrl = \<lparr>X = 4, Y = 0\<rparr>, w_i = 0\<rparr>"
proof -
  let ?pts = "[\<lparr>PX = 0, PY = 0, Flags = 1\<rparr>, \<lparr>PX = 128, PY = 128, Flags = 0\<rparr>,
               \<lparr>PX = 256, PY = 0, Flags = 0\<rparr>]"
  let ?st = "\<lparr>w_poly = [\<lparr>X = 0, Y = 0\<rparr>], w_prevOn = \<lparr>X = 0, Y = 0\<rparr>, w_haveCtrl = True,
      w_ctrl = \<lparr>X = 2, Y = 2\<rparr>, w_i = 2\<rparr>"
  have 1: "\<not> onCurve (?pts ! w_i ?st)" by (simp add: onCurve_def)
  have 2: "w_haveCtrl ?st" by simp
  have 3: "(1::int) \<le> 2" by simp
  have u: "[1..2::int] = [1, 2]" by (simp add: upto_rec1)
  have "walk_step ?pts 0 1 2 ?st =
     Inr \<lparr>w_poly = [\<lparr>X = 0, Y = 0\<rparr>, \<lparr>X = 7 / 4, Y = 5 / 4\<rparr>, \<lparr>X = 3, Y = 1\<rparr>],
          w_prevOn = \<lparr>X = 3, Y = 1\<rparr>, w_haveCtrl = True, w_ctrl = \<lparr>X = 4, Y = 0\<rparr>, w_i = 0\<rparr>"
    using flattenTrueTypeContour_pending_offcurve [OF 1 2 3, of 0 1]
    by (simp add: u toVec_def Mid_exact bezier_spec_def power2_eq_square)
  then show ?thesis
    using 1 by simp
qed

lemma chooseStart_hd_last:
  assumes "pts \<noteq> []"
  shows "chooseStart pts penX scale =
           (if onCurve (hd pts) then (toVec penX scale (hd pts), 0)
            else if onCurve (last pts) then (toVec penX scale (last pts), length pts - 1)
            else (Mid (toVec penX scale (last pts)) (toVec penX scale (hd pts)), 0))"
  using assms by (simp add: chooseStart_def Let_def hd_conv_nth last_conv_nth)

lemma walk_visits_rotation:
  assumes "pts \<noteq> []" and "j < length pts"
    and "walk j pts penX scale segs (initWalk pts penX scale) = Inr st"
  shows "w_i st < length pts"
    and "pts ! w_i st = rotate (snd (chooseStart pts penX scale) + 1) pts ! j"
proof -
  show "w_i st < length pts"
    using walk_index_in_range(1) [OF assms(1,3)] .
  have "w_i st = (snd (chooseStart pts penX scale) + 1 + j) mod length pts"
    using walk_index_in_range(2) [OF assms(1,3)] .
  then have "pts ! w_i st = pts ! ((snd (chooseStart pts penX scale) + 1 + j) mod length pts)"
    by (simp only:)
  also have "\<dots> = rotate (snd (chooseStart pts penX scale) + 1) pts ! j"
    using nth_rotate [OF assms(2), of "snd (chooseStart pts penX scale) + 1"] by (simp only:)
  finally show "pts ! w_i st = rotate (snd (chooseStart pts penX scale) + 1) pts ! j" .
qed

lemma rotation_of_start:
  assumes "pts \<noteq> []"
  shows "rotate (snd (chooseStart pts penX scale) + 1) pts =
           (if \<not> onCurve (hd pts) \<and> onCurve (last pts) then pts else tl pts @ [hd pts])"
proof (cases "\<not> onCurve (hd pts) \<and> onCurve (last pts)")
  case True
  then have "snd (chooseStart pts penX scale) + 1 = length pts"
    using assms by (simp add: chooseStart_hd_last)
  then show ?thesis using True by simp
next
  case False
  then have "snd (chooseStart pts penX scale) = 0"
    using assms by (auto simp: chooseStart_hd_last)
  then have "rotate (snd (chooseStart pts penX scale) + 1) pts = rotate1 pts"
    by simp
  also have "\<dots> = tl pts @ [hd pts]"
    using assms by (rule rotate1_hd_tl)
  finally show ?thesis using False by (simp only: if_False)
qed

lemma flattenTrueTypeContour_ends_at_start:
  assumes "flattenTrueTypeContour pts penX scale segs = Inr poly" and "poly \<noteq> []"
  shows "hd poly = fst (chooseStart pts penX scale)" and "last poly = fst (chooseStart pts penX scale)"
  using flattenTrueTypeContour_closed [OF assms(1)] assms(2) by (auto simp: contour_ok_def)

text \<open>
  The start anchor and the order of the walk, as the code has them. The anchor is the
  first point if it is on-curve; else the last point if that is on-curve; else the
  midpoint of the last and the first point. The polyline returned, when not dropped,
  begins and ends at the anchor. Iteration \<open>j\<close> of the walk examines element \<open>j\<close> of the
  list rotated by \<open>startIdx + 1\<close>: the list itself when the anchor is the last point, and
  the tail followed by the first point otherwise. So when both ends are off-curve the
  walk starts at index 1 and examines the first point last.
\<close>

lemma flattenTrueTypeContour_walk_order:
  assumes "pts \<noteq> []"
  shows "chooseStart pts penX scale =
           (if onCurve (hd pts) then (toVec penX scale (hd pts), 0)
            else if onCurve (last pts) then (toVec penX scale (last pts), length pts - 1)
            else (Mid (toVec penX scale (last pts)) (toVec penX scale (hd pts)), 0))
         \<and> Mid (toVec penX scale (last pts)) (toVec penX scale (hd pts)) =
             \<lparr>X = (X (toVec penX scale (last pts)) + X (toVec penX scale (hd pts))) / 2,
              Y = (Y (toVec penX scale (last pts)) + Y (toVec penX scale (hd pts))) / 2\<rparr>
         \<and> (\<forall>poly. flattenTrueTypeContour pts penX scale segs = Inr poly \<and> poly \<noteq> [] \<longrightarrow>
                hd poly = fst (chooseStart pts penX scale) \<and>
                last poly = fst (chooseStart pts penX scale))
         \<and> (\<forall>j st. j < length pts \<and>
                walk j pts penX scale segs (initWalk pts penX scale) = Inr st \<longrightarrow>
                w_i st < length pts \<and>
                pts ! w_i st = rotate (snd (chooseStart pts penX scale) + 1) pts ! j)
         \<and> rotate (snd (chooseStart pts penX scale) + 1) pts =
             (if \<not> onCurve (hd pts) \<and> onCurve (last pts) then pts else tl pts @ [hd pts])"
proof (intro conjI allI impI)
  show "chooseStart pts penX scale =
           (if onCurve (hd pts) then (toVec penX scale (hd pts), 0)
            else if onCurve (last pts) then (toVec penX scale (last pts), length pts - 1)
            else (Mid (toVec penX scale (last pts)) (toVec penX scale (hd pts)), 0))"
    using assms by (rule chooseStart_hd_last)
  show "Mid (toVec penX scale (last pts)) (toVec penX scale (hd pts)) =
             \<lparr>X = (X (toVec penX scale (last pts)) + X (toVec penX scale (hd pts))) / 2,
              Y = (Y (toVec penX scale (last pts)) + Y (toVec penX scale (hd pts))) / 2\<rparr>"
    by (rule Mid_exact)
  show "rotate (snd (chooseStart pts penX scale) + 1) pts =
             (if \<not> onCurve (hd pts) \<and> onCurve (last pts) then pts else tl pts @ [hd pts])"
    using assms by (rule rotation_of_start)
next
  fix poly
  assume "flattenTrueTypeContour pts penX scale segs = Inr poly \<and> poly \<noteq> []"
  then show "hd poly = fst (chooseStart pts penX scale)"
    and "last poly = fst (chooseStart pts penX scale)"
    using flattenTrueTypeContour_ends_at_start by blast+
next
  fix j st
  assume "j < length pts \<and> walk j pts penX scale segs (initWalk pts penX scale) = Inr st"
  then show "w_i st < length pts"
    and "pts ! w_i st = rotate (snd (chooseStart pts penX scale) + 1) pts ! j"
    using walk_visits_rotation [OF assms] by blast+
qed

lemma flattenTrueTypeContour_walk_order_example:
  "[\<lparr>PX = 128, PY = 128, Flags = 0\<rparr>, \<lparr>PX = 256, PY = 0, Flags = 1\<rparr>,
    \<lparr>PX = 0, PY = 0, Flags = 1\<rparr>] \<noteq> [] \<and>
   chooseStart [\<lparr>PX = 128, PY = 128, Flags = 0\<rparr>, \<lparr>PX = 256, PY = 0, Flags = 1\<rparr>,
                \<lparr>PX = 0, PY = 0, Flags = 1\<rparr>] 0 1 = (\<lparr>X = 0, Y = 0\<rparr>, 2) \<and>
   rotate (snd (chooseStart [\<lparr>PX = 128, PY = 128, Flags = 0\<rparr>, \<lparr>PX = 256, PY = 0, Flags = 1\<rparr>,
                             \<lparr>PX = 0, PY = 0, Flags = 1\<rparr>] 0 1) + 1)
     [\<lparr>PX = 128, PY = 128, Flags = 0\<rparr>, \<lparr>PX = 256, PY = 0, Flags = 1\<rparr>,
      \<lparr>PX = 0, PY = 0, Flags = 1\<rparr>] =
     [\<lparr>PX = 128, PY = 128, Flags = 0\<rparr>, \<lparr>PX = 256, PY = 0, Flags = 1\<rparr>,
      \<lparr>PX = 0, PY = 0, Flags = 1\<rparr>] \<and>
   flattenTrueTypeContour [\<lparr>PX = 128, PY = 128, Flags = 0\<rparr>, \<lparr>PX = 256, PY = 0, Flags = 1\<rparr>,
                           \<lparr>PX = 0, PY = 0, Flags = 1\<rparr>] 0 1 2 =
     Inr [\<lparr>X = 0, Y = 0\<rparr>, \<lparr>X = 2, Y = 1\<rparr>, \<lparr>X = 4, Y = 0\<rparr>, \<lparr>X = 0, Y = 0\<rparr>]"
proof -
  let ?pts = "[\<lparr>PX = 128, PY = 128, Flags = 0\<rparr>, \<lparr>PX = 256, PY = 0, Flags = 1\<rparr>,
               \<lparr>PX = 0, PY = 0, Flags = 1\<rparr>]"
  have ne: "?pts \<noteq> []" by simp
  have oc: "\<not> onCurve (hd ?pts)" "onCurve (last ?pts)"
    by (simp_all add: onCurve_def)
  have f: "flattenTrueTypeContour ?pts 0 1 2 =
     Inr [\<lparr>X = 0, Y = 0\<rparr>, \<lparr>X = 2, Y = 1\<rparr>, \<lparr>X = 4, Y = 0\<rparr>, \<lparr>X = 0, Y = 0\<rparr>]"
    by code_simp
  note t = flattenTrueTypeContour_walk_order [OF ne, of 0 1 2]
  have "chooseStart ?pts 0 1 = (\<lparr>X = 0, Y = 0\<rparr>, 2)"
    using t [THEN conjunct1] oc by (simp add: toVec_def)
  moreover have "rotate (snd (chooseStart ?pts 0 1) + 1) ?pts = ?pts"
    using t [THEN conjunct2, THEN conjunct2, THEN conjunct2, THEN conjunct2] oc
    by (simp only: if_True simp_thms)
  ultimately show ?thesis
    using ne f by (simp only: simp_thms)
qed

text \<open>
  Claim C3 asks that, once the anchor is chosen, the walk visit the remaining points in
  their original order and wrap back to the anchor. For a contour whose first and last
  points are both off-curve the anchor is their midpoint, and every point remains to be
  visited, the first point first. The code sets \<open>startIdx = 0\<close> in that case, so the walk
  starts at index 1 and examines the first point last, after it has come back to the
  anchor. On the contour \<open>(2, 2)\<close> off, \<open>(4, 0)\<close> on, \<open>(2, -2)\<close> off, with two segments
  per curve: the anchor is \<open>(2, 0)\<close>; the points are examined in the order \<open>(4, 0)\<close>,
  \<open>(2, -2)\<close>, \<open>(2, 2)\<close>; the polyline goes straight from the anchor to \<open>(4, 0)\<close>, without
  the control point \<open>(2, 2)\<close>, and ends with the flattened curve from the anchor through
  \<open>(2, 2)\<close> back to the anchor.
\<close>

theorem flattenTrueTypeContour_offcurve_ends:
  "chooseStart offcurveEndsContour 0 1 = (\<lparr>X = 2, Y = 0\<rparr>, 0) \<and>
   w_i (initWalk offcurveEndsContour 0 1) = 1 \<and>
   map (toVec 0 1) (rotate (snd (chooseStart offcurveEndsContour 0 1) + 1) offcurveEndsContour) =
     [\<lparr>X = 4, Y = 0\<rparr>, \<lparr>X = 2, Y = - 2\<rparr>, \<lparr>X = 2, Y = 2\<rparr>] \<and>
   flattenTrueTypeContour offcurveEndsContour 0 1 2 =
     Inr [\<lparr>X = 2, Y = 0\<rparr>, \<lparr>X = 4, Y = 0\<rparr>, \<lparr>X = 5 / 2, Y = - 1\<rparr>, \<lparr>X = 2, Y = 0\<rparr>,
          \<lparr>X = 2, Y = 1\<rparr>, \<lparr>X = 2, Y = 0\<rparr>]"
proof -
  have c: "chooseStart offcurveEndsContour 0 1 = (\<lparr>X = 2, Y = 0\<rparr>, 0)"
    by code_simp
  have i: "w_i (initWalk offcurveEndsContour 0 1) = 1"
    by code_simp
  have r: "map (toVec 0 1) (rotate (snd (chooseStart offcurveEndsContour 0 1) + 1) offcurveEndsContour) =
     [\<lparr>X = 4, Y = 0\<rparr>, \<lparr>X = 2, Y = - 2\<rparr>, \<lparr>X = 2, Y = 2\<rparr>]"
    unfolding c by (simp add: offcurveEndsContour_def toVec_def)
  have f: "flattenTrueTypeContour offcurveEndsContour 0 1 2 =
     Inr [\<lparr>X = 2, Y = 0\<rparr>, \<lparr>X = 4, Y = 0\<rparr>, \<lparr>X = 5 / 2, Y = - 1\<rparr>, \<lparr>X = 2, Y = 0\<rparr>,
          \<lparr>X = 2, Y = 1\<rparr>, \<lparr>X = 2, Y = 0\<rparr>]"
    by code_simp
  show ?thesis
    using c i r f by (simp only: simp_thms)
qed

section \<open>Invariants of the layout loops\<close>

lemma bounds_point_outlines [simp]: "st_outlines (bounds_point st p) = st_outlines st"
  by (simp add: bounds_point_def)

lemma bounds_point_finite [simp]: "finite_bounds (bounds_point st p)"
  by (simp add: bounds_point_def finite_bounds_def lower_bound_def raise_bound_def
      split: option.splits)

lemma foldl_bounds_point_outlines [simp]:
  "st_outlines (foldl bounds_point st c) = st_outlines st"
  by (induction c arbitrary: st) simp_all

lemma foldl_bounds_point_finite:
  "finite_bounds st \<or> c \<noteq> [] \<Longrightarrow> finite_bounds (foldl bounds_point st c)"
  by (induction c arbitrary: st) auto

lemma bounds_contours_outlines [simp]:
  "st_outlines (bounds_contours st contours) = st_outlines st"
  unfolding bounds_contours_def by (induction contours arbitrary: st) simp_all

lemma bounds_contours_finite:
  "finite_bounds st \<or> (\<exists>c \<in> set contours. c \<noteq> []) \<Longrightarrow>
     finite_bounds (bounds_contours st contours)"
  unfolding bounds_contours_def
proof (induction contours arbitrary: st)
  case Nil
  then show ?case by simp
next
  case (Cons c cs)
  show ?case
  proof (cases "finite_bounds st \<or> c \<noteq> []")
    case True
    then have "finite_bounds (foldl bounds_point st c)"
      by (rule foldl_bounds_point_finite)
    then show ?thesis using Cons.IH by simp
  next
    case False
    then have "\<exists>c \<in> set cs. c \<noteq> []" using Cons.prems by auto
    then show ?thesis using Cons.IH by simp
  qed
qed

lemma contour_ok_nonempty: "contour_ok c \<Longrightarrow> c \<noteq> []"
  by (auto simp: contour_ok_def)

lemma layout_inv_add_contours:
  assumes "layout_inv st" and "\<forall>c \<in> set contours. contour_ok c"
    and "st_outlines st' = st_outlines st @ contours"
    and "finite_bounds st' = finite_bounds (bounds_contours st contours)"
  shows "layout_inv st'"
proof -
  have "finite_bounds (bounds_contours st contours)" if "st_outlines st @ contours \<noteq> []"
  proof (cases "st_outlines st = []")
    case True
    with that obtain c where "c \<in> set contours" by (cases contours) auto
    with assms(2) have "\<exists>c \<in> set contours. c \<noteq> []"
      using contour_ok_nonempty by blast
    then show ?thesis by (simp add: bounds_contours_finite)
  next
    case False
    then have "finite_bounds st" using assms(1) by (simp add: layout_inv_def)
    then show ?thesis by (simp add: bounds_contours_finite)
  qed
  then show ?thesis
    using assms by (auto simp: layout_inv_def)
qed

lemma fallback_step_inv:
  assumes "fallback_step ttFont opt fixedScale scale st r = Inr st'" and "layout_inv st"
  shows "layout_inv st'"
proof (cases "Load ttFont fixedScale (Index ttFont r)")
  case None
  then have "st_outlines st' = st_outlines st" and "finite_bounds st' = finite_bounds st"
    using assms(1) by (auto simp: fallback_step_def Let_def finite_bounds_def)
  then show ?thesis using assms(2) by (simp add: layout_inv_def)
next
  case (Some gb)
  then obtain contours where
    g: "glyphContoursToPolylines gb (kerned_penX ttFont opt fixedScale st (Index ttFont r)) scale
          (CurveSegs opt) = Inr contours"
    and o: "st_outlines st' = st_outlines st @ contours"
    and f: "finite_bounds st' = finite_bounds (bounds_contours st contours)"
    using assms(1) by (auto simp: fallback_step_def Let_def finite_bounds_def split: sum.splits)
  show ?thesis
    using layout_inv_add_contours [OF assms(2) glyphContoursToPolylines_ok [OF g] o f] .
qed

lemma shaped_step_inv:
  assumes "shaped_step ttFont opt fixedScale scale st g = Inr st'" and "layout_inv st"
  shows "layout_inv st'"
proof (cases "Load ttFont fixedScale (pg_index g)")
  case None
  then show ?thesis using assms by (simp add: shaped_step_def)
next
  case (Some gb)
  then obtain contours where
    g: "glyphContoursToPolylines gb (pg_penX g) scale (CurveSegs opt) = Inr contours"
    and o: "st_outlines st' = st_outlines st @ contours"
    and f: "finite_bounds st' = finite_bounds (bounds_contours st contours)"
    using assms(1) by (auto simp: shaped_step_def Let_def finite_bounds_def split: sum.splits)
  show ?thesis
    using layout_inv_add_contours [OF assms(2) glyphContoursToPolylines_ok [OF g] o f] .
qed

lemma fallback_loop_inv:
  "fallback_loop ttFont opt fixedScale scale st s = Inr st' \<Longrightarrow> layout_inv st \<Longrightarrow> layout_inv st'"
proof (induction s arbitrary: st)
  case Nil
  then show ?case by simp
next
  case (Cons r rs)
  then obtain st1 where "fallback_step ttFont opt fixedScale scale st r = Inr st1"
    and "fallback_loop ttFont opt fixedScale scale st1 rs = Inr st'"
    by (auto split: sum.splits)
  then show ?case
    using Cons.IH Cons.prems(2) fallback_step_inv by blast
qed

lemma shaped_loop_inv:
  "shaped_loop ttFont opt fixedScale scale st gs = Inr st' \<Longrightarrow> layout_inv st \<Longrightarrow> layout_inv st'"
proof (induction gs arbitrary: st)
  case Nil
  then show ?case by simp
next
  case (Cons g gs)
  then obtain st1 where "shaped_step ttFont opt fixedScale scale st g = Inr st1"
    and "shaped_loop ttFont opt fixedScale scale st1 gs = Inr st'"
    by (auto split: sum.splits)
  then show ?case
    using Cons.IH Cons.prems(2) shaped_step_inv by blast
qed

lemma initial_state_inv: "layout_inv initial_state"
  by (simp add: layout_inv_def initial_state_def)

lemma layoutRun_inv:
  assumes "layoutRun parsed ttFont s opt fixedScale scale = Inr (st, adv)"
  shows "layout_inv st"
proof (cases "shapeGlyphsWithHarfBuzz parsed s opt")
  case None
  then have "fallback_loop ttFont opt fixedScale scale initial_state s = Inr st"
    using assms by (auto simp: layoutRun_def split: sum.splits)
  then show ?thesis using fallback_loop_inv initial_state_inv by blast
next
  case (Some a)
  then have "shaped_loop ttFont opt fixedScale scale initial_state (fst a) = Inr st"
    using assms by (auto simp: layoutRun_def split: sum.splits prod.splits)
  then show ?thesis using shaped_loop_inv initial_state_inv by blast
qed

lemma layoutRun_bounds_finite:
  "layoutRun parsed ttFont s opt fixedScale scale = Inr (st, adv) \<Longrightarrow> st_outlines st \<noteq> [] \<Longrightarrow>
     finite_bounds st"
  using layoutRun_inv by (auto simp: layout_inv_def)

section \<open>Properties of the text-to-outline operation\<close>

lemma normalize_Spacing_neg:
  "Spacing (normalizeSpacing (normalizeSegs opt)) < 0 \<longleftrightarrow> Spacing opt < 0"
  by (simp add: normalizeSpacing_def normalizeSegs_def)

lemma TextOutlines_Inr:
  assumes "TextOutlines parsed s opt0 = Inr outs"
  obtains pf ttFont st adv where "parsed = Some pf" and "TTFont pf = Some ttFont"
    and "0 < Size opt0" and "0 \<le> Spacing opt0"
    and "layoutRun parsed ttFont s (normalizeSpacing (normalizeSegs opt0)) (FUnitsPerEm ttFont * 64)
           (fontScale pf ttFont (normalizeSpacing (normalizeSegs opt0))) = Inr (st, adv)"
    and "st_outlines st = [] \<and> outs = [] \<or>
         st_outlines st \<noteq> [] \<and>
         (\<exists>dx dy. computeAlign (normalizeSpacing (normalizeSegs opt0))
                     (bound_value (st_minX st)) (bound_value (st_minY st))
                     (bound_value (st_maxX st)) (bound_value (st_maxY st))
                     (adv * fontScale pf ttFont (normalizeSpacing (normalizeSegs opt0))) = Inr (dx, dy) \<and>
                  outs = translate dx dy (st_outlines st))"
proof -
  let ?opt = "normalizeSpacing (normalizeSegs opt0)"
  from assms obtain pf where pf: "parsed = Some pf"
    by (cases parsed) (simp_all add: TextOutlines_def)
  from assms pf obtain ttFont where tt: "TTFont pf = Some ttFont"
    by (cases "TTFont pf") (simp_all add: TextOutlines_def)
  from assms pf tt have sz: "0 < Size opt0"
    by (simp add: TextOutlines_def split: if_splits)
  from assms pf tt sz have sp': "\<not> Spacing ?opt < 0"
    by (simp add: TextOutlines_def Let_def split: if_splits)
  then have sp: "0 \<le> Spacing opt0"
    by (simp add: normalize_Spacing_neg)
  let ?lr = "layoutRun parsed ttFont s ?opt (FUnitsPerEm ttFont * 64) (fontScale pf ttFont ?opt)"
  have t: "TextOutlines parsed s opt0 =
     (case ?lr of
        Inl e \<Rightarrow> Inl e
      | Inr (st, layoutAdvance) \<Rightarrow>
          if length (st_outlines st) = 0 then Inr []
          else
            (case computeAlign ?opt
                    (bound_value (st_minX st)) (bound_value (st_minY st))
                    (bound_value (st_maxX st)) (bound_value (st_maxY st))
                    (layoutAdvance * fontScale pf ttFont ?opt) of
               Inl e \<Rightarrow> Inl e
             | Inr (dx, dy) \<Rightarrow> Inr (translate dx dy (st_outlines st))))"
    using pf tt sz sp' by (simp add: TextOutlines_def Let_def)
  from assms t obtain st adv where lr: "?lr = Inr (st, adv)"
    by (cases ?lr) auto
  have "st_outlines st = [] \<and> outs = [] \<or>
         st_outlines st \<noteq> [] \<and>
         (\<exists>dx dy. computeAlign ?opt
                     (bound_value (st_minX st)) (bound_value (st_minY st))
                     (bound_value (st_maxX st)) (bound_value (st_maxY st))
                     (adv * fontScale pf ttFont ?opt) = Inr (dx, dy) \<and>
                  outs = translate dx dy (st_outlines st))"
    using assms t lr by (auto split: if_splits sum.splits)
  then show thesis
    using that pf tt sz sp lr by blast
qed

lemma translate_contour_ok:
  "\<forall>c \<in> set outlines. contour_ok c \<Longrightarrow> \<forall>c \<in> set (translate dx dy outlines). contour_ok c"
proof
  fix c'
  assume a: "\<forall>c \<in> set outlines. contour_ok c" and "c' \<in> set (translate dx dy outlines)"
  then obtain c where c: "c \<in> set outlines"
    and c': "c' = map (\<lambda>p. p\<lparr>X := X p + dx, Y := Y p + dy\<rparr>) c"
    by (auto simp: translate_def)
  from a c have ok: "4 \<le> length c" "hd c = last c"
    by (auto simp: contour_ok_def)
  then have ne: "c \<noteq> []" by auto
  show "contour_ok c'"
    using ok by (simp add: contour_ok_def c' hd_map [OF ne] last_map [OF ne])
qed

lemma TextOutlines_contours_ok:
  assumes "TextOutlines parsed s opt0 = Inr outs"
  shows "\<forall>c \<in> set outs. contour_ok c"
proof -
  from assms obtain pf ttFont st adv where
    lr: "layoutRun parsed ttFont s (normalizeSpacing (normalizeSegs opt0)) (FUnitsPerEm ttFont * 64)
           (fontScale pf ttFont (normalizeSpacing (normalizeSegs opt0))) = Inr (st, adv)"
    and o: "st_outlines st = [] \<and> outs = [] \<or>
         st_outlines st \<noteq> [] \<and>
         (\<exists>dx dy. computeAlign (normalizeSpacing (normalizeSegs opt0))
                     (bound_value (st_minX st)) (bound_value (st_minY st))
                     (bound_value (st_maxX st)) (bound_value (st_maxY st))
                     (adv * fontScale pf ttFont (normalizeSpacing (normalizeSegs opt0))) = Inr (dx, dy) \<and>
                  outs = translate dx dy (st_outlines st))"
    by (rule TextOutlines_Inr)
  have "\<forall>c \<in> set (st_outlines st). contour_ok c"
    using layoutRun_inv [OF lr] by (simp add: layout_inv_def)
  then show ?thesis
    using o translate_contour_ok by auto
qed

subsection \<open>Returned errors\<close>

lemma flattenQuad_no_Error: "flattenQuad p0 p1 p2 segs \<noteq> Inl (Error msg)"
  by (simp add: flattenQuad_def)

lemma walk_step_no_Error: "walk_step pts penX scale segs st \<noteq> Inl (Error msg)"
  using flattenQuad_no_Error
  by (auto simp: walk_step_def Let_def split: sum.splits)

lemma walk_no_Error: "walk k pts penX scale segs st \<noteq> Inl (Error msg)"
  using walk_step_no_Error
  by (induction k arbitrary: st) (auto split: sum.splits)

lemma closeContour_no_Error: "closeContour st start segs \<noteq> Inl (Error msg)"
  using flattenQuad_no_Error
  by (auto simp: closeContour_def Let_def split: sum.splits if_splits)

lemma flattenTrueTypeContour_no_Error:
  "flattenTrueTypeContour pts penX scale segs \<noteq> Inl (Error msg)"
  using walk_no_Error closeContour_no_Error
  by (auto simp: flattenTrueTypeContour_def Let_def split: sum.splits)

lemma slice_no_Error: "slice xs lo hi \<noteq> Inl (Error msg)"
  by (simp add: slice_def)

lemma contours_loop_no_Error:
  "contours_loop pts penX scale segs ends start out \<noteq> Inl (Error msg)"
proof (induction pts penX scale segs ends start out rule: contours_loop.induct)
  case (1 pts penX scale segs start out)
  show ?case by simp
next
  case (2 pts penX scale segs e ends start out)
  show ?case
  proof (cases "slice pts start e")
    case (Inl err)
    then show ?thesis using slice_no_Error [of pts start e msg] by simp
  next
    case sl: (Inr contourPts)
    show ?thesis
    proof (cases "length contourPts = 0")
      case True
      then show ?thesis using sl "2.IH"(1) by simp
    next
      case False
      show ?thesis
      proof (cases "flattenTrueTypeContour contourPts penX scale segs")
        case (Inl err)
        then show ?thesis
          using sl False flattenTrueTypeContour_no_Error [of contourPts penX scale segs msg]
          by simp
      next
        case (Inr poly)
        then show ?thesis using sl False "2.IH"(2) by simp
      qed
    qed
  qed
qed

lemma glyphContoursToPolylines_no_Error:
  "glyphContoursToPolylines gb penX scale segs \<noteq> Inl (Error msg)"
  by (simp add: glyphContoursToPolylines_def contours_loop_no_Error)

lemma fallback_step_no_Error:
  "fallback_step ttFont opt fixedScale scale st r \<noteq> Inl (Error msg)"
  using glyphContoursToPolylines_no_Error
  by (auto simp: fallback_step_def Let_def split: option.splits sum.splits)

lemma shaped_step_no_Error:
  "shaped_step ttFont opt fixedScale scale st g \<noteq> Inl (Error msg)"
  using glyphContoursToPolylines_no_Error
  by (auto simp: shaped_step_def Let_def split: option.splits sum.splits)

lemma fallback_loop_no_Error:
  "fallback_loop ttFont opt fixedScale scale st s \<noteq> Inl (Error msg)"
  using fallback_step_no_Error
  by (induction s arbitrary: st) (auto split: sum.splits)

lemma shaped_loop_no_Error:
  "shaped_loop ttFont opt fixedScale scale st gs \<noteq> Inl (Error msg)"
  using shaped_step_no_Error
  by (induction gs arbitrary: st) (auto split: sum.splits)

lemma layoutRun_no_Error:
  "layoutRun parsed ttFont s opt fixedScale scale \<noteq> Inl (Error msg)"
  using fallback_loop_no_Error shaped_loop_no_Error
  by (auto simp: layoutRun_def split: option.splits sum.splits prod.splits)

lemma computeAlign_no_Error:
  "computeAlign opt minX minY maxX maxY advanceWidth \<noteq> Inl (Error msg)"
  by (auto simp: computeAlign_def Let_def split: sum.splits if_splits)

lemma TextOutlines_valid_eq:
  assumes "parsed = Some pf" and "TTFont pf = Some ttFont" and "0 < Size opt0"
    and "0 \<le> Spacing opt0"
  shows "TextOutlines parsed s opt0 =
     (case layoutRun parsed ttFont s (normalizeSpacing (normalizeSegs opt0)) (FUnitsPerEm ttFont * 64)
             (fontScale pf ttFont (normalizeSpacing (normalizeSegs opt0))) of
        Inl e \<Rightarrow> Inl e
      | Inr (st, layoutAdvance) \<Rightarrow>
          if length (st_outlines st) = 0 then Inr []
          else
            (case computeAlign (normalizeSpacing (normalizeSegs opt0))
                    (bound_value (st_minX st)) (bound_value (st_minY st))
                    (bound_value (st_maxX st)) (bound_value (st_maxY st))
                    (layoutAdvance * fontScale pf ttFont (normalizeSpacing (normalizeSegs opt0))) of
               Inl e \<Rightarrow> Inl e
             | Inr (dx, dy) \<Rightarrow> Inr (translate dx dy (st_outlines st))))"
proof -
  have sp: "\<not> Spacing (normalizeSpacing (normalizeSegs opt0)) < 0"
    using assms(4) by (simp add: normalize_Spacing_neg)
  show ?thesis
    using assms(1-3) sp by (simp add: TextOutlines_def Let_def)
qed

lemma TextOutlines_valid_no_Error:
  assumes "parsed = Some pf" and "TTFont pf = Some ttFont" and "0 < Size opt0"
    and "0 \<le> Spacing opt0"
  shows "TextOutlines parsed s opt0 \<noteq> Inl (Error msg)"
proof
  assume e: "TextOutlines parsed s opt0 = Inl (Error msg)"
  let ?opt = "normalizeSpacing (normalizeSegs opt0)"
  let ?lr = "layoutRun parsed ttFont s ?opt (FUnitsPerEm ttFont * 64) (fontScale pf ttFont ?opt)"
  note t = TextOutlines_valid_eq [OF assms, of s]
  show False
  proof (cases ?lr)
    case (Inl err)
    then have "err = Error msg" using e t by simp
    then show False using Inl layoutRun_no_Error by blast
  next
    case (Inr r)
    obtain st adv where r: "r = (st, adv)" by (cases r)
    show False
    proof (cases "length (st_outlines st) = 0")
      case True
      then show False using e t Inr r by simp
    next
      case False
      let ?ca = "computeAlign ?opt
                    (bound_value (st_minX st)) (bound_value (st_minY st))
                    (bound_value (st_maxX st)) (bound_value (st_maxY st))
                    (adv * fontScale pf ttFont ?opt)"
      have "?ca = Inl (Error msg)"
        using e t Inr r False by (cases ?ca) (simp_all add: split_beta)
      then show False using computeAlign_no_Error by blast
    qed
  qed
qed

lemma normalize_Spacing_0:
  "Spacing opt = 0 \<Longrightarrow>
     normalizeSpacing (normalizeSegs (opt\<lparr>Spacing := 1\<rparr>)) = normalizeSpacing (normalizeSegs opt)"
  by (simp add: normalizeSpacing_def normalizeSegs_def)

lemma TextOutlines_Spacing_0:
  assumes "Spacing opt = 0"
  shows "TextOutlines parsed s opt = TextOutlines parsed s (opt\<lparr>Spacing := 1\<rparr>)"
proof -
  have "Size (opt\<lparr>Spacing := 1\<rparr>) = Size opt"
    by simp
  then show ?thesis
    unfolding TextOutlines_def normalize_Spacing_0 [OF assms] by (simp only:)
qed

lemma TextOutlines_invalid_Error:
  assumes "parsed = None \<or> (\<exists>pf. parsed = Some pf \<and> TTFont pf = None) \<or> Size opt \<le> 0 \<or> Spacing opt < 0"
  shows "\<exists>msg. TextOutlines parsed s opt = Inl (Error msg)"
proof (cases parsed)
  case None
  then show ?thesis by (simp add: TextOutlines_def)
next
  case (Some pf)
  show ?thesis
  proof (cases "TTFont pf")
    case None
    then show ?thesis using Some by (simp add: TextOutlines_def)
  next
    case tt: (Some ttFont)
    show ?thesis
    proof (cases "Size opt \<le> 0")
      case True
      then show ?thesis using Some tt by (simp add: TextOutlines_def)
    next
      case False
      then have "Spacing (normalizeSpacing (normalizeSegs opt)) < 0"
        using assms Some tt by (simp add: normalize_Spacing_neg)
      then show ?thesis using Some tt False by (simp add: TextOutlines_def Let_def)
    qed
  qed
qed

lemma TextOutlines_Error_invalid:
  assumes e: "TextOutlines parsed s opt = Inl (Error msg)"
  shows "parsed = None \<or> (\<exists>pf. parsed = Some pf \<and> TTFont pf = None) \<or> Size opt \<le> 0 \<or> Spacing opt < 0"
proof (cases parsed)
  case None
  then show ?thesis by simp
next
  case (Some pf)
  show ?thesis
  proof (cases "TTFont pf")
    case None
    then show ?thesis using Some by simp
  next
    case tt: (Some ttFont)
    have "\<not> (0 < Size opt \<and> 0 \<le> Spacing opt)"
      using TextOutlines_valid_no_Error [OF Some tt] e by blast
    then show ?thesis by auto
  qed
qed

text \<open>
  Claim C6. \<open>TextOutlines\<close> returns an error exactly when the parsed font is nil (the
  handle itself or the \<open>TTFont\<close> it holds), \<open>Size \<le> 0\<close> or \<open>Spacing < 0\<close>; the text plays
  no part. A \<open>Spacing\<close> of 0 is replaced by 1 before the test for a negative value, so the
  call is accepted and behaves as with \<open>Spacing = 1\<close>. (A panic on an unknown alignment
  value is not a returned error: it is \<open>Inl (Panic _)\<close> in this model.)
\<close>

theorem TextOutlines_error_iff:
  "((\<exists>msg. TextOutlines parsed s opt = Inl (Error msg)) \<longleftrightarrow>
      parsed = None \<or> (\<exists>pf. parsed = Some pf \<and> TTFont pf = None) \<or> Size opt \<le> 0 \<or> Spacing opt < 0)
   \<and> (Spacing opt = 0 \<longrightarrow>
        TextOutlines parsed s opt = TextOutlines parsed s (opt\<lparr>Spacing := 1\<rparr>))"
proof (intro conjI iffI impI)
  assume "\<exists>msg. TextOutlines parsed s opt = Inl (Error msg)"
  then obtain msg where "TextOutlines parsed s opt = Inl (Error msg)" ..
  then show "parsed = None \<or> (\<exists>pf. parsed = Some pf \<and> TTFont pf = None) \<or> Size opt \<le> 0 \<or> Spacing opt < 0"
    by (rule TextOutlines_Error_invalid)
next
  assume "parsed = None \<or> (\<exists>pf. parsed = Some pf \<and> TTFont pf = None) \<or> Size opt \<le> 0 \<or> Spacing opt < 0"
  then show "\<exists>msg. TextOutlines parsed s opt = Inl (Error msg)"
    by (rule TextOutlines_invalid_Error)
next
  assume "Spacing opt = 0"
  then show "TextOutlines parsed s opt = TextOutlines parsed s (opt\<lparr>Spacing := 1\<rparr>)"
    by (rule TextOutlines_Spacing_0)
qed

theorem TextOutlines_error_iff_witness:
  "TextOutlines (Some exampleParsed) [65] (exampleOptions\<lparr>Spacing := - 1\<rparr>) = Inl (Error ''Spacing must be >= 0'')
   \<and> TextOutlines (Some exampleParsed) [65] (exampleOptions\<lparr>Size := 0\<rparr>) = Inl (Error ''Size must be > 0'')
   \<and> TextOutlines None [65] exampleOptions = Inl (Error ''nil font'')
   \<and> TextOutlines (Some (exampleParsed\<lparr>TTFont := None\<rparr>)) [65] exampleOptions = Inl (Error ''nil font'')
   \<and> Spacing exampleOptions = 0
   \<and> TextOutlines (Some exampleParsed) [65] exampleOptions =
       TextOutlines (Some exampleParsed) [65] (exampleOptions\<lparr>Spacing := 1\<rparr>)
   \<and> (\<nexists>msg. TextOutlines (Some exampleParsed) [65] exampleOptions = Inl (Error msg))"
proof -
  have a: "TextOutlines (Some exampleParsed) [65] (exampleOptions\<lparr>Spacing := - 1\<rparr>) = Inl (Error ''Spacing must be >= 0'')"
    by code_simp
  have b: "TextOutlines (Some exampleParsed) [65] (exampleOptions\<lparr>Size := 0\<rparr>) = Inl (Error ''Size must be > 0'')"
    by code_simp
  have c: "TextOutlines None [65] exampleOptions = Inl (Error ''nil font'')"
    by code_simp
  have d: "TextOutlines (Some (exampleParsed\<lparr>TTFont := None\<rparr>)) [65] exampleOptions = Inl (Error ''nil font'')"
    by code_simp
  have e: "Spacing exampleOptions = 0" "\<not> Size exampleOptions \<le> 0" "TTFont exampleParsed \<noteq> None"
    by (simp_all add: exampleOptions_def exampleParsed_def)
  show ?thesis
    using a b c d e TextOutlines_error_iff [of "Some exampleParsed" "[65]" exampleOptions]
    by auto
qed

subsection \<open>The bounding box and the alignment shift\<close>
















lemma computeAlign_dx:
  assumes "computeAlign opt minX minY maxX maxY advanceWidth = Inr (dx, dy)"
  shows "(HAlign (Align opt) = HAlignLeft \<longrightarrow> dx = 0) \<and>
         (HAlign (Align opt) = HAlignCenter \<longrightarrow> dx = - (minX + (maxX - minX) / 2)) \<and>
         (HAlign (Align opt) = HAlignRight \<longrightarrow> dx = - advanceWidth)"
  using assms
  by (auto simp: computeAlign_def Let_def HAlignLeft_def HAlignCenter_def HAlignRight_def
      split: if_splits sum.splits)

lemma normalize_Align [simp]:
  "Align (normalizeSpacing (normalizeSegs opt)) = Align opt"
  by (simp add: normalizeSpacing_def normalizeSegs_def)





subsection \<open>Closed contours of at least four points\<close>

text \<open>
  Claim C4. In every contour of the outlines that \<open>TextOutlines\<close> returns, the first
  point equals the last point. The translation at the end adds the same \<open>(dx, dy)\<close> to
  every point, so it maps closed contours to closed contours.
\<close>

theorem TextOutlines_closure:
  assumes "TextOutlines parsed s opt = Inr outs"
  shows "(\<forall>c \<in> set outs. c \<noteq> [] \<and> hd c = last c) \<and>
         (\<forall>dx dy outlines.
            (\<forall>c \<in> set outlines. c \<noteq> [] \<and> hd c = last c) \<longrightarrow>
            (\<forall>c \<in> set (translate dx dy outlines). c \<noteq> [] \<and> hd c = last c))"
proof -
  have "\<forall>c \<in> set outs. c \<noteq> [] \<and> hd c = last c"
    using TextOutlines_contours_ok [OF assms] contour_ok_nonempty
    by (auto simp: contour_ok_def)
  moreover have "\<forall>c \<in> set (translate dx dy outlines). c \<noteq> [] \<and> hd c = last c"
    if "\<forall>c \<in> set outlines. c \<noteq> [] \<and> hd c = last c" for dx dy outlines
    using that by (auto simp: translate_def hd_map last_map)
  ultimately show ?thesis by blast
qed

theorem TextOutlines_closure_witness:
  "TextOutlines (Some exampleParsed) [65]
     (exampleOptions\<lparr>Align := \<lparr>HAlign = HAlignCenter, VAlign = VAlignCenter\<rparr>\<rparr>) =
     Inr [[\<lparr>X = - (5 / 2), Y = - (35 / 8)\<rparr>, \<lparr>X = 5 / 2, Y = - (35 / 8)\<rparr>,
           \<lparr>X = 0, Y = 35 / 8\<rparr>, \<lparr>X = - (5 / 2), Y = - (35 / 8)\<rparr>]] \<and>
   hd [\<lparr>X = - (5 / 2), Y = - (35 / 8)\<rparr>, \<lparr>X = 5 / 2, Y = - (35 / 8)\<rparr>,
       \<lparr>X = 0, Y = 35 / 8\<rparr>, \<lparr>X = - (5 / 2), Y = - (35 / 8 :: real)\<rparr>] =
   last [\<lparr>X = - (5 / 2), Y = - (35 / 8)\<rparr>, \<lparr>X = 5 / 2, Y = - (35 / 8)\<rparr>,
         \<lparr>X = 0, Y = 35 / 8\<rparr>, \<lparr>X = - (5 / 2), Y = - (35 / 8)\<rparr>]"
proof -
  have h: "TextOutlines (Some exampleParsed) [65]
     (exampleOptions\<lparr>Align := \<lparr>HAlign = HAlignCenter, VAlign = VAlignCenter\<rparr>\<rparr>) =
     Inr [[\<lparr>X = - (5 / 2), Y = - (35 / 8)\<rparr>, \<lparr>X = 5 / 2, Y = - (35 / 8)\<rparr>,
           \<lparr>X = 0, Y = 35 / 8\<rparr>, \<lparr>X = - (5 / 2), Y = - (35 / 8)\<rparr>]]"
    by code_simp
  show ?thesis
    using h TextOutlines_closure [OF h] by simp
qed

text \<open>
  Claim C5, as the code has it. Every contour of the outlines that \<open>TextOutlines\<close>
  returns has at least four points, and its last point repeats its first. A contour
  whose closed polyline has fewer than four points is dropped: \<open>flattenTrueTypeContour\<close>
  returns the empty polyline for it, and \<open>glyphContoursToPolylines\<close> keeps no polyline
  of fewer than four points. The code counts points; it does not compare them, so the
  points of a contour need not be distinct.
\<close>

theorem TextOutlines_min_points:
  assumes "TextOutlines parsed s opt = Inr outs"
  shows "(\<forall>c \<in> set outs. 4 \<le> length c \<and> last c = hd c) \<and>
         (\<forall>pts penX scale segs poly.
            flattenTrueTypeContour pts penX scale segs = Inr poly \<longrightarrow>
            poly = [] \<or> 4 \<le> length poly) \<and>
         (\<forall>gb penX scale segs contours.
            glyphContoursToPolylines gb penX scale segs = Inr contours \<longrightarrow>
            (\<forall>c \<in> set contours. 4 \<le> length c))"
proof -
  have "\<forall>c \<in> set outs. 4 \<le> length c \<and> last c = hd c"
    using TextOutlines_contours_ok [OF assms] by (simp add: contour_ok_def)
  moreover have "poly = [] \<or> 4 \<le> length poly"
    if "flattenTrueTypeContour pts penX scale segs = Inr poly" for pts penX scale segs poly
    using flattenTrueTypeContour_closed [OF that] by (auto simp: contour_ok_def)
  moreover have "\<forall>c \<in> set contours. 4 \<le> length c"
    if "glyphContoursToPolylines gb penX scale segs = Inr contours" for gb penX scale segs contours
    using glyphContoursToPolylines_ok [OF that] by (simp add: contour_ok_def)
  ultimately show ?thesis by blast
qed

theorem TextOutlines_min_points_witness:
  "TextOutlines (Some exampleParsed) [66] exampleOptions =
     Inr [[\<lparr>X = 0, Y = 0\<rparr>, \<lparr>X = 10, Y = 0\<rparr>, \<lparr>X = 10, Y = 0\<rparr>, \<lparr>X = 0, Y = 0\<rparr>]] \<and>
   4 \<le> length [\<lparr>X = 0, Y = 0\<rparr>, \<lparr>X = 10, Y = 0\<rparr>, \<lparr>X = 10, Y = 0\<rparr>, \<lparr>X = 0, Y = 0 :: real\<rparr>]"
proof -
  have h: "TextOutlines (Some exampleParsed) [66] exampleOptions =
     Inr [[\<lparr>X = 0, Y = 0\<rparr>, \<lparr>X = 10, Y = 0\<rparr>, \<lparr>X = 10, Y = 0\<rparr>, \<lparr>X = 0, Y = 0\<rparr>]]"
    by code_simp
  show ?thesis
    using h TextOutlines_min_points [OF h] by simp
qed

text \<open>
  The claim as the specification states it asks for three distinct vertices in every
  contour. The glyph with a repeated point gives a contour of four points with two
  distinct vertices.
\<close>

theorem TextOutlines_distinct_vertices_counterexample:
  "TextOutlines (Some exampleParsed) [66] exampleOptions =
     Inr [[\<lparr>X = 0, Y = 0\<rparr>, \<lparr>X = 10, Y = 0\<rparr>, \<lparr>X = 10, Y = 0\<rparr>, \<lparr>X = 0, Y = 0\<rparr>]] \<and>
   card (set [\<lparr>X = 0, Y = 0\<rparr>, \<lparr>X = 10, Y = 0\<rparr>, \<lparr>X = 10, Y = 0\<rparr>, \<lparr>X = 0, Y = 0 :: real\<rparr>]) = 2"
proof -
  have "TextOutlines (Some exampleParsed) [66] exampleOptions =
     Inr [[\<lparr>X = 0, Y = 0\<rparr>, \<lparr>X = 10, Y = 0\<rparr>, \<lparr>X = 10, Y = 0\<rparr>, \<lparr>X = 0, Y = 0\<rparr>]]"
    by code_simp
  moreover have "set [\<lparr>X = 0, Y = 0\<rparr>, \<lparr>X = 10, Y = 0\<rparr>, \<lparr>X = 10, Y = 0\<rparr>, \<lparr>X = 0, Y = 0 :: real\<rparr>] =
      {\<lparr>X = 0, Y = 0\<rparr>, \<lparr>X = 10, Y = 0\<rparr>}"
    by auto
  then have "card (set [\<lparr>X = 0, Y = 0\<rparr>, \<lparr>X = 10, Y = 0\<rparr>, \<lparr>X = 10, Y = 0\<rparr>, \<lparr>X = 0, Y = 0 :: real\<rparr>]) = 2"
    by simp
  ultimately show ?thesis by (rule conjI)
qed

subsection \<open>Glyphs that fail to load\<close>

text \<open>
  Claim C7. In the fallback loop, a codepoint whose glyph fails to load is not an error
  and does not end the run: the iteration succeeds, leaves the outlines and the bounds as
  they are, moves the pen (after the kerning adjustment made at the head of the
  iteration) by the advance width of the glyph times \<open>Spacing\<close>, and the loop goes on
  with the next codepoint.
\<close>

theorem fallback_missing_glyph:
  assumes "Load ttFont fixedScale (Index ttFont r) = None"
  shows "\<exists>st'. fallback_step ttFont opt fixedScale scale st r = Inr st' \<and>
           st_outlines st' = st_outlines st \<and>
           st_minX st' = st_minX st \<and> st_minY st' = st_minY st \<and>
           st_maxX st' = st_maxX st \<and> st_maxY st' = st_maxY st \<and>
           st_penX st' =
             kerned_penX ttFont opt fixedScale st (Index ttFont r) +
             (real_of_int (HMetric_AdvanceWidth ttFont fixedScale (Index ttFont r)) / 64) * Spacing opt \<and>
           fallback_loop ttFont opt fixedScale scale st (r # rs) =
             fallback_loop ttFont opt fixedScale scale st' rs"
  using assms by (simp add: fallback_step_def Let_def)

theorem fallback_missing_glyph_witness:
  "Load exampleFont 64000 (Index exampleFont 67) = None \<and>
   fallback_step exampleFont (normalizeSpacing (normalizeSegs exampleOptions)) 64000 (1 / 80)
     initial_state 67 =
     Inr \<lparr>st_outlines = [], st_minX = None, st_minY = None, st_maxX = None, st_maxY = None,
          st_penX = 600, st_prev = 3, st_hasPrev = True\<rparr> \<and>
   fallback_loop exampleFont (normalizeSpacing (normalizeSegs exampleOptions)) 64000 (1 / 80)
     initial_state [67, 65] =
   fallback_loop exampleFont (normalizeSpacing (normalizeSegs exampleOptions)) 64000 (1 / 80)
     \<lparr>st_outlines = [], st_minX = None, st_minY = None, st_maxX = None, st_maxY = None,
      st_penX = 600, st_prev = 3, st_hasPrev = True\<rparr> [65]"
proof -
  have l: "Load exampleFont 64000 (Index exampleFont 67) = None"
    by (simp add: exampleFont_def)
  have s: "fallback_step exampleFont (normalizeSpacing (normalizeSegs exampleOptions)) 64000 (1 / 80)
     initial_state 67 =
     Inr \<lparr>st_outlines = [], st_minX = None, st_minY = None, st_maxX = None, st_maxY = None,
          st_penX = 600, st_prev = 3, st_hasPrev = True\<rparr>"
    by code_simp
  show ?thesis
    using l s
      fallback_missing_glyph [OF l, of "normalizeSpacing (normalizeSegs exampleOptions)" "1 / 80"
        initial_state "[65]"]
    by simp
qed

text \<open>
  Claim C10. In the fallback loop, a glyph that fails to load still becomes the previous
  glyph: after its iteration \<open>prev\<close> is its index and \<open>hasPrev\<close> holds. With kerning on,
  the pen is therefore moved by \<open>Kern (missing glyph) (next glyph) / 64 * Spacing\<close> before
  the next glyph is placed, and the contours of the next glyph are decoded at that pen
  position.
\<close>

theorem fallback_missing_glyph_kerning:
  assumes "Load ttFont fixedScale (Index ttFont r1) = None" and "Kerning opt"
  shows "\<exists>st1. fallback_step ttFont opt fixedScale scale st r1 = Inr st1 \<and>
           st_prev st1 = Index ttFont r1 \<and> st_hasPrev st1 \<and>
           kerned_penX ttFont opt fixedScale st1 (Index ttFont r2) =
             st_penX st1 +
             (real_of_int (Kern ttFont fixedScale (Index ttFont r1) (Index ttFont r2)) / 64) * Spacing opt \<and>
           (\<forall>gb contours.
              Load ttFont fixedScale (Index ttFont r2) = Some gb \<and>
              glyphContoursToPolylines gb
                (st_penX st1 +
                 (real_of_int (Kern ttFont fixedScale (Index ttFont r1) (Index ttFont r2)) / 64) * Spacing opt)
                scale (CurveSegs opt) = Inr contours \<longrightarrow>
              (\<exists>st2. fallback_step ttFont opt fixedScale scale st1 r2 = Inr st2 \<and>
                     st_outlines st2 = st_outlines st1 @ contours))"
  using assms by (simp add: fallback_step_def kerned_penX_def Let_def)

theorem fallback_missing_glyph_kerning_witness:
  "Load exampleFont 64000 (Index exampleFont 67) = None \<and>
   Kerning (normalizeSpacing (normalizeSegs exampleOptions)) \<and>
   Kern exampleFont 64000 (Index exampleFont 67) (Index exampleFont 65) = - 3200 \<and>
   Kern exampleFont 64000 (Index exampleFont 65) (Index exampleFont 65) = 0 \<and>
   fallback_loop exampleFont (normalizeSpacing (normalizeSegs exampleOptions)) 64000 (1 / 80)
     initial_state [65, 67] =
     Inr \<lparr>st_outlines =
            [[\<lparr>X = 5 / 4, Y = 0\<rparr>, \<lparr>X = 25 / 4, Y = 0\<rparr>, \<lparr>X = 15 / 4, Y = 35 / 4\<rparr>,
              \<lparr>X = 5 / 4, Y = 0\<rparr>]],
          st_minX = Some (5 / 4), st_minY = Some 0, st_maxX = Some (25 / 4),
          st_maxY = Some (35 / 4), st_penX = 1200, st_prev = 3, st_hasPrev = True\<rparr> \<and>
   kerned_penX exampleFont (normalizeSpacing (normalizeSegs exampleOptions)) 64000
     \<lparr>st_outlines =
        [[\<lparr>X = 5 / 4, Y = 0\<rparr>, \<lparr>X = 25 / 4, Y = 0\<rparr>, \<lparr>X = 15 / 4, Y = 35 / 4\<rparr>,
          \<lparr>X = 5 / 4, Y = 0\<rparr>]],
      st_minX = Some (5 / 4), st_minY = Some 0, st_maxX = Some (25 / 4),
      st_maxY = Some (35 / 4), st_penX = 1200, st_prev = 3, st_hasPrev = True\<rparr>
     (Index exampleFont 65) = 1150"
proof -
  let ?opt = "normalizeSpacing (normalizeSegs exampleOptions)"
  let ?st = "\<lparr>st_outlines =
            [[\<lparr>X = 5 / 4, Y = 0\<rparr>, \<lparr>X = 25 / 4, Y = 0\<rparr>, \<lparr>X = 15 / 4, Y = 35 / 4\<rparr>,
              \<lparr>X = 5 / 4, Y = 0\<rparr>]],
          st_minX = Some (5 / 4), st_minY = Some 0, st_maxX = Some (25 / 4),
          st_maxY = Some (35 / 4), st_penX = 600, st_prev = 1, st_hasPrev = True\<rparr>"
  let ?st1 = "\<lparr>st_outlines =
            [[\<lparr>X = 5 / 4, Y = 0\<rparr>, \<lparr>X = 25 / 4, Y = 0\<rparr>, \<lparr>X = 15 / 4, Y = 35 / 4\<rparr>,
              \<lparr>X = 5 / 4, Y = 0\<rparr>]],
          st_minX = Some (5 / 4), st_minY = Some 0, st_maxX = Some (25 / 4),
          st_maxY = Some (35 / 4), st_penX = 1200, st_prev = 3, st_hasPrev = True\<rparr>"
  have l: "Load exampleFont 64000 (Index exampleFont 67) = None"
    by (simp add: exampleFont_def)
  have k: "Kerning ?opt"
    by (simp add: exampleOptions_def normalizeSpacing_def normalizeSegs_def)
  have sp: "Spacing ?opt = 1"
    by (simp add: exampleOptions_def normalizeSpacing_def normalizeSegs_def)
  have kv: "Kern exampleFont 64000 (Index exampleFont 67) (Index exampleFont 65) = - 3200"
    "Kern exampleFont 64000 (Index exampleFont 65) (Index exampleFont 65) = 0"
    by (simp_all add: exampleFont_def)
  have a: "fallback_loop exampleFont ?opt 64000 (1 / 80) initial_state [65] = Inr ?st"
    by code_simp
  have b: "fallback_step exampleFont ?opt 64000 (1 / 80) ?st 67 = Inr ?st1"
    by code_simp
  have c: "fallback_loop exampleFont ?opt 64000 (1 / 80) initial_state [65, 67] = Inr ?st1"
    by code_simp
  from fallback_missing_glyph_kerning [OF l k, of "1 / 80" ?st 65]
  obtain st1 where "fallback_step exampleFont ?opt 64000 (1 / 80) ?st 67 = Inr st1"
    and "kerned_penX exampleFont ?opt 64000 st1 (Index exampleFont 65) =
           st_penX st1 +
           (real_of_int (Kern exampleFont 64000 (Index exampleFont 67) (Index exampleFont 65)) / 64) * Spacing ?opt"
    by blast
  then have "kerned_penX exampleFont ?opt 64000 ?st1 (Index exampleFont 65) = 1150"
    using b kv sp by simp
  then show ?thesis
    using l k kv c by simp
qed

section \<open>Properties of the binary table reader\<close>


lemma Uint16_bound: "Uint16 b < 65536"
proof -
  have "unat (b ! 0) < 256" "unat (b ! 1) < 256"
    using unsigned_less [of "b ! 0", where ?'a = nat] unsigned_less [of "b ! 1", where ?'a = nat] by simp_all
  then show ?thesis by (simp add: Uint16_def)
qed











text \<open>
  The theorem above is for a 64-bit \<open>int\<close>, where no sum in the function can overflow.
  Where \<open>int\<close> has 32 bits, \<open>tableOffset + tableLen\<close> can wrap round to a negative number;
  the bounds check then passes and the slice expression that reads the value is out of
  range.
\<close>

lemma parseOS2TypoAscender_32_overflow:
  "parseOS2TypoAscender 32 overflowingFont = Inl (Panic ''slice bounds out of range'')"
proof -
  have "slice overflowingFont 4 6 = Inr [0, 1]"
    by (simp add: slice_def overflowingFont_def)
  moreover have "Uint16 [0, 1] = 1"
    by (simp add: Uint16_def)
  ultimately have "parseOS2TypoAscender 32 overflowingFont = scanTables 32 overflowingFont 1 0"
    by (simp add: parseOS2TypoAscender_def Let_def) (simp add: overflowingFont_def)
  also have "\<dots> = Inl (Panic ''slice bounds out of range'')"
    by (subst scanTables.simps)
       (simp add: slice_def overflowingFont_def os2Tag_def Uint32_def go_int_def Let_def)
  finally show ?thesis .
qed

end
